theory Spec2Isabelle
  imports Complex_Main "HOL-Library.Log_Nat" "HOL-Library.AList"
begin

section \<open>Python numbers\<close>

text \<open>
  Python integers are unbounded and are modelled by \<^typ>\<open>int\<close>. A Python float is an
  IEEE 754 binary64 value; a finite float is modelled by the rational number it denotes,
  and every float operation returns the exact result rounded to the nearest binary64 value,
  ties to even (\<open>rnd64\<close>). The exponent range is not bounded in \<open>rnd64\<close>: results of
  magnitude \<open>2 ^ 1024\<close> and above (where binary64 overflows) and below \<open>2 ^ -1022\<close>
  (where it loses precision) are outside the model, except in \<open>difficulty_to_target\<close>,
  which writes the overflow out. No quantity of the cluster manager or of the optimizer
  comes near either bound.
\<close>

datatype py_error = ZeroDivisionError | OverflowError | ValueError

definition round_half_even :: "rat \<Rightarrow> int" where
  "round_half_even t =
     (if t - of_int \<lfloor>t\<rfloor> < 1 / 2 then \<lfloor>t\<rfloor>
      else if 1 / 2 < t - of_int \<lfloor>t\<rfloor> then \<lfloor>t\<rfloor> + 1
      else if even \<lfloor>t\<rfloor> then \<lfloor>t\<rfloor> else \<lfloor>t\<rfloor> + 1)"

text \<open>\<open>ilog2 x\<close> is \<open>\<lfloor>log\<^sub>2 x\<rfloor>\<close> for a positive rational \<open>x\<close>.\<close>

definition ilog2 :: "rat \<Rightarrow> int" where
  "ilog2 x =
     (case quotient_of x of (p, q) \<Rightarrow>
        if 2 powi (bitlen p - bitlen q) \<le> x then bitlen p - bitlen q
        else bitlen p - bitlen q - 1)"

text \<open>Rounding to 53 significant bits: the significand \<open>\<bar>x\<bar> / 2 ^ e\<close> lies in
  \<open>[2 ^ 52, 2 ^ 53)\<close> and is rounded to an integer.\<close>

definition rnd64 :: "rat \<Rightarrow> rat" where
  "rnd64 x =
     (if x = 0 then 0
      else sgn x * of_int (round_half_even (\<bar>x\<bar> / 2 powi (ilog2 \<bar>x\<bar> - 52)))
             * 2 powi (ilog2 \<bar>x\<bar> - 52))"

definition float_of_int :: "int \<Rightarrow> rat" where
  "float_of_int n = rnd64 (of_int n)"

definition fadd :: "rat \<Rightarrow> rat \<Rightarrow> rat" where
  "fadd a b = rnd64 (a + b)"

definition fmul :: "rat \<Rightarrow> rat \<Rightarrow> rat" where
  "fmul a b = rnd64 (a * b)"

definition fdiv :: "rat \<Rightarrow> rat \<Rightarrow> rat" where
  "fdiv a b = rnd64 (a / b)"

text \<open>\<open>a / b\<close> on two Python ints is the correctly rounded quotient. Every divisor in the
  modelled code is a non-zero constant.\<close>

definition int_truediv :: "int \<Rightarrow> int \<Rightarrow> rat" where
  "int_truediv a b = rnd64 (of_int a / of_int b)"

text \<open>\<open>x // y\<close> on floats, for the divisor 2 used in the source: the quotient \<open>x / 2\<close>
  and its floor are exact in binary64.\<close>

definition float_floordiv :: "rat \<Rightarrow> rat \<Rightarrow> rat" where
  "float_floordiv x y = of_int \<lfloor>x / y\<rfloor>"

text \<open>\<open>int(x)\<close> truncates toward zero.\<close>

definition py_int :: "rat \<Rightarrow> int" where
  "py_int x = (if 0 \<le> x then \<lfloor>x\<rfloor> else \<lceil>x\<rceil>)"

text \<open>The float literals of the source, as the binary64 values Python reads them as.\<close>

definition f_0_1 :: rat where "f_0_1 = 3602879701896397 / 2 ^ 55"
definition f_0_02 :: rat where "f_0_02 = 5764607523034235 / 2 ^ 58"
definition f_0_98 :: rat where "f_0_98 = 2206763817411543 / 2 ^ 51"
definition f_1_01 :: rat where "f_1_01 = 4548635623644201 / 2 ^ 52"
definition f_0_6 :: rat where "f_0_6 = 5404319552844595 / 2 ^ 53"
definition f_0_8 :: rat where "f_0_8 = 3602879701896397 / 2 ^ 52"
definition f_1_2 :: rat where "f_1_2 = 5404319552844595 / 2 ^ 52"

section \<open>Python strings of numbers\<close>

definition digit_char :: "int \<Rightarrow> char" where
  "digit_char d = ''0123456789abcdef'' ! nat d"

text \<open>The digits of a positive integer in base \<open>b\<close>, most significant first; empty for 0.\<close>

function digits_of :: "int \<Rightarrow> int \<Rightarrow> string" where
  "digits_of b n =
     (if n \<le> 0 \<or> b \<le> 1 then [] else digits_of b (n div b) @ [digit_char (n mod b)])"
  by pat_completeness auto
termination
proof (relation "measure (\<lambda>(b, n). nat n)")
  show "wf (measure (\<lambda>(b, n). nat n))" by simp
next
  fix b n :: int
  assume a: "\<not> (n \<le> 0 \<or> b \<le> 1)"
  then have "n div b < n" by (simp add: int_div_less_self)
  then show "((b, n div b), (b, n)) \<in> measure (\<lambda>(b, n). nat n)" using a by simp
qed

declare digits_of.simps [simp del]

definition number_string :: "int \<Rightarrow> int \<Rightarrow> string" where
  "number_string b n = (if n = 0 then ''0'' else digits_of b n)"

text \<open>\<open>hex(n)\<close> and \<open>str(n)\<close> (as the f-string formats the segment counter).\<close>

definition py_hex :: "int \<Rightarrow> string" where
  "py_hex n = (if n < 0 then ''-0x'' @ number_string 16 (- n) else ''0x'' @ number_string 16 n)"

definition py_str :: "int \<Rightarrow> string" where
  "py_str n = (if n < 0 then ''-'' @ number_string 10 (- n) else number_string 10 n)"

text \<open>\<open>s.zfill(width)\<close>: zeros are inserted after a leading sign.\<close>

definition zfill :: "nat \<Rightarrow> string \<Rightarrow> string" where
  "zfill width s =
     (if width \<le> length s then s
      else case s of
             [] \<Rightarrow> replicate width CHR ''0''
           | c # cs \<Rightarrow>
               if c = CHR ''+'' \<or> c = CHR ''-''
               then c # replicate (width - length s) CHR ''0'' @ cs
               else replicate (width - length s) CHR ''0'' @ s)"

text \<open>Reading a string of hexadecimal digits back; \<open>None\<close> when the string is empty or
  holds another character. It is used to say which integer a rendered target encodes.\<close>

fun index_of :: "'a \<Rightarrow> 'a list \<Rightarrow> int option" where
  "index_of c [] = None"
| "index_of c (x # xs) = (if c = x then Some 0 else map_option (\<lambda>i. i + 1) (index_of c xs))"

definition hex_digit_value :: "char \<Rightarrow> int option" where
  "hex_digit_value c = index_of c ''0123456789abcdef''"

definition hex_step :: "int option \<Rightarrow> char \<Rightarrow> int option" where
  "hex_step acc c =
     (case acc of None \<Rightarrow> None
      | Some a \<Rightarrow> map_option (\<lambda>d. 16 * a + d) (hex_digit_value c))"

definition hex_value :: "string \<Rightarrow> int option" where
  "hex_value s = (if s = [] then None else foldl hex_step (Some 0) s)"

text \<open>
  The builtin \<open>int(s, 16)\<close> on a string whose characters are code points below 256 (a
  \<^typ>\<open>char\<close> stands for the code point): blanks around the number are skipped (tab to
  carriage return, space, and the two blanks U+0085 and U+00A0 of that range), then an
  optional sign, an optional \<open>0x\<close> or \<open>0X\<close> which one underscore may follow, then digits in
  either case with single underscores between them. Anything else is a \<open>ValueError\<close>.
\<close>

definition is_space :: "char \<Rightarrow> bool" where
  "is_space c =
     (c \<in> set [CHR 0x09, CHR 0x0A, CHR 0x0B, CHR 0x0C, CHR 0x0D, CHR 0x20, CHR 0x85, CHR 0xA0])"

definition digit_value16 :: "char \<Rightarrow> int option" where
  "digit_value16 c =
     (case index_of c ''0123456789abcdef'' of
        Some d \<Rightarrow> Some d
      | None \<Rightarrow> map_option (\<lambda>i. i + 10) (index_of c ''ABCDEF''))"

definition is_body_char :: "char \<Rightarrow> bool" where
  "is_body_char c = (case digit_value16 c of Some d \<Rightarrow> True | None \<Rightarrow> c = CHR ''_'')"

definition strip_sign :: "string \<Rightarrow> string" where
  "strip_sign s =
     (case s of
        [] \<Rightarrow> []
      | c # cs \<Rightarrow> if c = CHR ''+'' \<or> c = CHR ''-'' then cs else s)"

definition is_negative :: "string \<Rightarrow> bool" where
  "is_negative s = (case s of [] \<Rightarrow> False | c # cs \<Rightarrow> c = CHR ''-'')"

definition strip_prefix16 :: "string \<Rightarrow> string" where
  "strip_prefix16 s =
     (case s of
        a # b # cs \<Rightarrow>
          if a = CHR ''0'' \<and> (b = CHR ''x'' \<or> b = CHR ''X'')
          then (case cs of [] \<Rightarrow> [] | u # ds \<Rightarrow> if u = CHR ''_'' then ds else cs)
          else s
      | _ \<Rightarrow> s)"

fun underscores_single :: "string \<Rightarrow> bool" where
  "underscores_single [] = True"
| "underscores_single [c] = (c \<noteq> CHR ''_'')"
| "underscores_single (a # b # cs) =
     (if a = CHR ''_'' \<and> b = CHR ''_'' then False else underscores_single (b # cs))"

definition body_ok :: "string \<Rightarrow> bool" where
  "body_ok body =
     (case body of [] \<Rightarrow> False | c # cs \<Rightarrow> c \<noteq> CHR ''_'' \<and> underscores_single body)"

definition digits_value16 :: "string \<Rightarrow> int" where
  "digits_value16 ds =
     foldl (\<lambda>a c. 16 * a + (case digit_value16 c of None \<Rightarrow> 0 | Some d \<Rightarrow> d)) 0 ds"

definition py_int16 :: "string \<Rightarrow> py_error + int" where
  "py_int16 s =
     (let s1 = dropWhile is_space s;
          s3 = strip_prefix16 (strip_sign s1);
          body = takeWhile is_body_char s3;
          rest = dropWhile is_body_char s3
      in if body_ok body \<and> dropWhile is_space rest = []
         then Inr ((if is_negative s1 then - 1 else 1)
                     * digits_value16 (filter (\<lambda>c. c \<noteq> CHR ''_'') body))
         else Inl ValueError)"

section \<open>The pool manager (mining\_engine/pool\_manager.py)\<close>

definition diff1_target :: int where
  "diff1_target = 0x00000000FFFF0000000000000000000000000000000000000000000000000000"

text \<open>
  \<open>_difficulty_to_target\<close>: \<open>int(diff1_target / difficulty)\<close> rendered by
  \<open>hex(target)[2:].zfill(64)\<close>. The division is a float division (the int is converted
  first): it raises on a zero divisor and yields infinity on overflow, which \<open>int\<close>
  refuses.
\<close>

definition difficulty_to_target :: "rat \<Rightarrow> py_error + string" where
  "difficulty_to_target difficulty_v =
     (if difficulty_v = 0 then Inl ZeroDivisionError
      else if 2 ^ 1024 \<le> \<bar>fdiv (float_of_int diff1_target) difficulty_v\<bar> then Inl OverflowError
      else Inr (zfill 64 (drop 2 (py_hex (py_int (fdiv (float_of_int diff1_target) difficulty_v))))))"

text \<open>The \<open>WorkUnit\<close> dataclass; \<open>pool.last_work\<close> holds its \<open>__dict__\<close>.\<close>

record work_unit =
  wu_job_id :: string
  wu_algorithm :: string
  wu_data :: string
  wu_target :: string
  wu_height :: int
  wu_timestamp :: rat
  wu_pool_name :: string
  wu_difficulty :: rat

text \<open>
  The work dictionary that \<open>get_work\<close> returns and \<open>segment_work\<close> reads and copies:
  one optional field for each key either function reads or writes, with the type of the
  values \<open>get_work\<close> stores under it. An absent key is \<open>None\<close>.
\<close>

record work =
  job_id :: "string option"
  algorithm :: "string option"
  data :: "string option"
  target :: "int option"
  height :: "int option"
  timestamp :: "rat option"
  pool_name :: "string option"
  difficulty :: "rat option"
  nonce_start :: "int option"
  nonce_end :: "int option"
  segment_id :: "string option"
  original_work_id :: "string option"

text \<open>The fields of \<open>PoolConnection\<close> that \<open>get_work\<close> reads.\<close>

record pool_connection =
  pc_name :: string
  pc_url :: string
  pc_connected :: bool
  pc_last_work :: "work_unit option"
  pc_difficulty :: rat

text \<open>\<open>a in b\<close> on strings.\<close>

fun is_substring :: "string \<Rightarrow> string \<Rightarrow> bool" where
  "is_substring a [] = (a = [])"
| "is_substring a (c # cs) = (take (length a) (c # cs) = a \<or> is_substring a cs)"

text \<open>The search loop of \<open>get_work\<close>: the first pool, in the dictionary's order, whose url
  or name occurs in the argument.\<close>

fun find_pool :: "pool_connection list \<Rightarrow> string \<Rightarrow> pool_connection option" where
  "find_pool [] pool_url = None"
| "find_pool (pool # pools) pool_url =
     (if is_substring (pc_url pool) pool_url \<or> is_substring (pc_name pool) pool_url
      then Some pool else find_pool pools pool_url)"

text \<open>\<open>last_work.copy()\<close> followed by \<open>update\<close>: every stored key is kept, the nonce range
  is added and the target, a string in the stored dictionary, is replaced by its value.\<close>

definition work_of_unit :: "work_unit \<Rightarrow> int \<Rightarrow> work" where
  "work_of_unit w t =
     \<lparr>job_id = Some (wu_job_id w), algorithm = Some (wu_algorithm w), data = Some (wu_data w),
      target = Some t, height = Some (wu_height w), timestamp = Some (wu_timestamp w),
      pool_name = Some (wu_pool_name w), difficulty = Some (wu_difficulty w),
      nonce_start = Some 0, nonce_end = Some 0xFFFFFFFF,
      segment_id = None, original_work_id = None\<rparr>"

text \<open>
  \<open>get_work\<close>. The manager's pools are the values of its dictionary, in insertion order.
  The builtin \<open>int(s, 16)\<close> is the parameter \<open>int16\<close>, to be taken as \<open>py_int16\<close>; the
  \<open>ValueError\<close> it raises is not caught.
  The function assigns to no attribute of the manager or of a pool: the state is returned
  as it was received.
\<close>

definition get_work ::
  "(string \<Rightarrow> py_error + int) \<Rightarrow> pool_connection list \<Rightarrow> string
     \<Rightarrow> pool_connection list \<times> (py_error + work option)" where
  "get_work int16 pools pool_url =
     (case find_pool pools pool_url of
        None \<Rightarrow> (pools, Inr None)
      | Some target_pool \<Rightarrow>
          (if \<not> pc_connected target_pool then (pools, Inr None)
           else (case pc_last_work target_pool of
                   None \<Rightarrow> (pools, Inr None)
                 | Some last_work \<Rightarrow>
                     (case int16 (wu_target last_work) of
                        Inl e \<Rightarrow> (pools, Inl e)
                      | Inr t \<Rightarrow> (pools, Inr (Some (work_of_unit last_work t)))))))"

section \<open>The optimizer (mining\_engine/optimizer.py)\<close>

text \<open>The part of \<open>hardware_info\<close> that the worker configuration reads: \<open>cpu.cores\<close>,
  the list \<open>gpus\<close> and \<open>memory.available\<close> (bytes); an absent key is \<open>None\<close>.\<close>

record hardware_info =
  hw_cpu_cores :: "int option"
  hw_gpus :: "string list"
  hw_memory_available :: "int option"

record worker_config =
  cfg_cpu_threads :: int
  cfg_gpu_intensity :: int

definition memory_available :: "hardware_info \<Rightarrow> int" where
  "memory_available hw = (case hw_memory_available hw of None \<Rightarrow> 0 | Some a \<Rightarrow> a)"

definition optimize_worker_configuration :: "hardware_info \<Rightarrow> string \<Rightarrow> worker_config" where
  "optimize_worker_configuration hw alg =
     (let cores = (case hw_cpu_cores hw of None \<Rightarrow> 1 | Some c \<Rightarrow> c);
          config = \<lparr>cfg_cpu_threads = max 1 (cores - 1), cfg_gpu_intensity = 80\<rparr>
      in if alg = ''RandomX'' then
           let available_memory_gb =
                 int_truediv (memory_available hw) (1024 ^ 3);
               max_threads_by_memory = py_int (float_floordiv available_memory_gb 2)
           in config\<lparr>cfg_cpu_threads := min (cfg_cpu_threads config) max_threads_by_memory,
                     cfg_gpu_intensity := 0\<rparr>
         else if alg = ''Ethash'' then config\<lparr>cfg_cpu_threads := 1, cfg_gpu_intensity := 100\<rparr>
         else if alg = ''SHA256'' then
           (if hw_gpus hw \<noteq> []
            then config\<lparr>cfg_gpu_intensity := 90, cfg_cpu_threads := max 1 (cores div 2)\<rparr>
            else config)
         else config)"

text \<open>The optimizer's state that the modelled methods read or write: the per-worker
  efficiency dictionary. The histories that \<open>record_rejection\<close> and \<open>record_performance\<close>
  also append to are read by neither of them nor by \<open>segment_work\<close>.\<close>

record optimizer =
  worker_efficiency :: "string \<rightharpoonup> rat"

definition initial_optimizer :: optimizer where
  "initial_optimizer = \<lparr>worker_efficiency = Map.empty\<rparr>"

text \<open>\<open>self.worker_efficiency.get(worker_id, 1.0)\<close>\<close>

definition efficiency_of :: "optimizer \<Rightarrow> string \<Rightarrow> rat" where
  "efficiency_of opt worker_id =
     (case worker_efficiency opt worker_id of None \<Rightarrow> 1 | Some e \<Rightarrow> e)"

definition base_sizes :: "string \<Rightarrow> int" where
  "base_sizes alg =
     (if alg = ''SHA256'' then 1000000
      else if alg = ''RandomX'' then 100000
      else if alg = ''Ethash'' then 500000
      else if alg = ''Scrypt'' then 200000
      else if alg = ''Yescrypt'' then 150000
      else if alg = ''Kawpow'' then 300000
      else if alg = ''X11'' then 400000
      else 500000)"

definition calculate_base_segment_size :: "string \<Rightarrow> int \<Rightarrow> int" where
  "calculate_base_segment_size alg difficulty_value =
     py_int (fmul (float_of_int (base_sizes alg))
               (min 2 (max f_0_1 (int_truediv difficulty_value diff1_target))))"

text \<open>The dictionary one loop iteration appends: a copy of the work with four keys set.\<close>

definition make_segment :: "work \<Rightarrow> string \<Rightarrow> int \<Rightarrow> int \<Rightarrow> int \<Rightarrow> work" where
  "make_segment w worker_id current_nonce segment_end seg_no =
     w\<lparr>nonce_start := Some current_nonce, nonce_end := Some segment_end,
       segment_id := Some (worker_id @ ''_'' @ py_str seg_no),
       original_work_id := Some (case job_id w of None \<Rightarrow> ''unknown'' | Some j \<Rightarrow> j)\<rparr>"

text \<open>The \<open>while\<close> loop of \<open>segment_work\<close>. \<open>None\<close> is a loop that does not return.\<close>

partial_function (option) segment_loop ::
  "work \<Rightarrow> string \<Rightarrow> int \<Rightarrow> int \<Rightarrow> int \<Rightarrow> int \<Rightarrow> work list \<Rightarrow> work list option" where
  "segment_loop w worker_id adjusted_size nonce_end_v current_nonce seg_no segments =
     (if current_nonce < nonce_end_v then
        segment_loop w worker_id adjusted_size nonce_end_v
          (min (current_nonce + adjusted_size) nonce_end_v + 1)
          (seg_no + 1)
          (segments @ [make_segment w worker_id current_nonce
                         (min (current_nonce + adjusted_size) nonce_end_v) seg_no])
      else Some segments)"

text \<open>\<open>segment_work\<close> returns the list of segment dictionaries. The \<open>WorkSegment\<close> objects
  it also files under \<open>active_segments\<close> hold the same ranges and are read by no modelled
  method.\<close>

definition adjusted_segment_size :: "optimizer \<Rightarrow> work \<Rightarrow> string \<Rightarrow> int" where
  "adjusted_segment_size opt w worker_id =
     py_int (fmul (float_of_int
                     (calculate_base_segment_size
                        (case algorithm w of None \<Rightarrow> ''SHA256'' | Some a \<Rightarrow> a)
                        (case target w of None \<Rightarrow> diff1_target | Some t \<Rightarrow> t)))
               (efficiency_of opt worker_id))"

definition segment_work :: "optimizer \<Rightarrow> work \<Rightarrow> string \<Rightarrow> work list option" where
  "segment_work opt w worker_id =
     segment_loop w worker_id (adjusted_segment_size opt w worker_id)
       (case nonce_end w of None \<Rightarrow> 0xFFFFFFFF | Some e \<Rightarrow> e)
       (case nonce_start w of None \<Rightarrow> 0 | Some s \<Rightarrow> s)
       0 []"

text \<open>The nonces a segment stands for are those a miner tries on it:
  \<open>range(nonce_start, nonce_end)\<close> in every \<open>mine\<close> of mining\_engine/algorithms.py.\<close>

definition segment_range :: "work \<Rightarrow> int \<times> int" where
  "segment_range s =
     (case nonce_start s of None \<Rightarrow> 0 | Some a \<Rightarrow> a,
      case nonce_end s of None \<Rightarrow> 0xFFFFFFFF | Some b \<Rightarrow> b)"

definition covered :: "work list \<Rightarrow> int \<Rightarrow> bool" where
  "covered segments n =
     list_ex (\<lambda>s. fst (segment_range s) \<le> n \<and> n < snd (segment_range s)) segments"

text \<open>\<open>record_rejection(result, worker_id)\<close>\<close>

definition record_rejection :: "optimizer \<Rightarrow> string \<Rightarrow> optimizer" where
  "record_rejection opt worker_id =
     opt\<lparr>worker_efficiency :=
           (worker_efficiency opt)(worker_id \<mapsto> max f_0_1 (fmul (efficiency_of opt worker_id) f_0_98))\<rparr>"

text \<open>The keys of the \<open>metrics\<close> dictionary that decide the efficiency update of
  \<open>record_performance\<close>; an absent key is \<open>None\<close>.\<close>

record metrics =
  m_worker_id :: "string option"
  m_rejection_rate :: "rat option"

definition record_performance :: "optimizer \<Rightarrow> metrics \<Rightarrow> optimizer" where
  "record_performance opt m =
     (let worker = (case m_worker_id m of None \<Rightarrow> [] | Some w \<Rightarrow> w);
          rejection_rate = (case m_rejection_rate m of None \<Rightarrow> 0 | Some r \<Rightarrow> r)
      in if worker \<noteq> [] \<and> rejection_rate < f_0_02
         then opt\<lparr>worker_efficiency :=
                   (worker_efficiency opt)(worker \<mapsto> min 2 (fmul (efficiency_of opt worker) f_1_01))\<rparr>
         else opt)"

text \<open>A report reaching the optimizer, and a sequence of them applied in order.\<close>

datatype report = Rejection string | Performance metrics

fun record_report :: "optimizer \<Rightarrow> report \<Rightarrow> optimizer" where
  "record_report opt (Rejection worker_id) = record_rejection opt worker_id"
| "record_report opt (Performance m) = record_performance opt m"

definition record_all :: "optimizer \<Rightarrow> report list \<Rightarrow> optimizer" where
  "record_all opt rs = foldl record_report opt rs"

text \<open>A rejection report, and a clean performance sample (rejection rate below 0.02).\<close>

fun is_rejection :: "report \<Rightarrow> bool" where
  "is_rejection (Rejection w) = True"
| "is_rejection (Performance m) = False"

fun is_clean :: "report \<Rightarrow> bool" where
  "is_clean (Rejection w) = False"
| "is_clean (Performance m) = ((case m_rejection_rate m of None \<Rightarrow> 0 | Some r \<Rightarrow> r) < f_0_02)"

section \<open>The cluster manager (orchestrator/cluster\_manager.py)\<close>

record MiningNode =
  node_id :: string
  hostname :: string
  ip_address :: string
  port :: int
  status :: string
  last_seen :: rat
  cpu_cores :: int
  cpu_threads :: int
  gpu_count :: int
  gpu_memory :: int
  total_memory :: int
  hashrate :: rat
  temperature :: "(string \<times> rat) list"
  power_usage :: rat
  uptime :: rat
  assigned_algorithm :: string
  assigned_pool :: string
  work_segments :: "string list"

record ClusterStats =
  total_nodes :: int
  active_nodes :: int
  total_hashrate :: rat
  total_power :: rat
  algorithms_running :: "string set"
  pools_connected :: "string set"
  efficiency_score :: rat

text \<open>The registry: \<open>self.nodes\<close>, a dictionary in insertion order, and
  \<open>self.cluster_stats\<close>.\<close>

record ClusterManager =
  nodes :: "(string \<times> MiningNode) list"
  cluster_stats :: ClusterStats

text \<open>\<open>_calculate_hardware_score\<close>: the cpu score is an int; the two divisions make the
  other summands floats.\<close>

definition calculate_hardware_score :: "MiningNode \<Rightarrow> rat" where
  "calculate_hardware_score node =
     (let cpu_score = cpu_cores node * 10 + cpu_threads node * 5;
          gpu_score = fadd (float_of_int (gpu_count node * 50))
                        (fmul (int_truediv (gpu_memory node) (1024 ^ 3)) 20);
          memory_score = fmul (int_truediv (total_memory node) (1024 ^ 3)) 2
      in fadd (fadd (float_of_int cpu_score) gpu_score) memory_score)"

definition algorithm_multipliers :: "string \<Rightarrow> rat" where
  "algorithm_multipliers alg =
     (if alg = ''SHA256'' then 1
      else if alg = ''RandomX'' then f_0_8
      else if alg = ''Ethash'' then f_1_2
      else if alg = ''Scrypt'' then f_0_6
      else 1)"

definition expected_hashrate :: "MiningNode \<Rightarrow> rat" where
  "expected_hashrate node =
     fmul (fmul (calculate_hardware_score node) (algorithm_multipliers (assigned_algorithm node)))
       1000"

text \<open>\<open>sum\<close> over floats: from 0, adding from left to right.\<close>

definition py_sum :: "rat list \<Rightarrow> rat" where
  "py_sum xs = foldl fadd 0 xs"

definition mining_nodes :: "(string \<times> MiningNode) list \<Rightarrow> MiningNode list" where
  "mining_nodes ns = filter (\<lambda>n. status n = ''mining'') (map snd ns)"

definition calculate_cluster_efficiency :: "(string \<times> MiningNode) list \<Rightarrow> rat" where
  "calculate_cluster_efficiency ns =
     (if ns = [] then 0
      else if mining_nodes ns = [] then 0
      else fmul (fdiv (py_sum (map hashrate (mining_nodes ns)))
                   (max 1 (py_sum (map expected_hashrate (mining_nodes ns)))))
             100)"

text \<open>The value \<open>_update_cluster_stats\<close> assigns to \<open>self.cluster_stats\<close>.\<close>

definition compute_cluster_stats :: "(string \<times> MiningNode) list \<Rightarrow> ClusterStats" where
  "compute_cluster_stats ns =
     \<lparr>total_nodes = int (length ns),
      active_nodes =
        int (length (filter (\<lambda>n. status n = ''active'' \<or> status n = ''mining'') (map snd ns))),
      total_hashrate = py_sum (map hashrate (mining_nodes ns)),
      total_power = py_sum (map power_usage (mining_nodes ns)),
      algorithms_running =
        set (filter (\<lambda>a. a \<noteq> []) (map assigned_algorithm (mining_nodes ns))),
      pools_connected = set (filter (\<lambda>p. p \<noteq> []) (map assigned_pool (mining_nodes ns))),
      efficiency_score = calculate_cluster_efficiency ns\<rparr>"

definition update_cluster_stats :: "ClusterManager \<Rightarrow> ClusterManager" where
  "update_cluster_stats cm = cm\<lparr>cluster_stats := compute_cluster_stats (nodes cm)\<rparr>"

text \<open>\<open>ClusterManager.__init__\<close>: no node, \<open>ClusterStats()\<close> with its defaults.\<close>

definition initial_manager :: ClusterManager where
  "initial_manager =
     \<lparr>nodes = [],
      cluster_stats = \<lparr>total_nodes = 0, active_nodes = 0, total_hashrate = 0, total_power = 0,
                       algorithms_running = {}, pools_connected = {}, efficiency_score = 0\<rparr>\<rparr>"

text \<open>The keys \<open>register_node\<close> reads from \<open>node_info\<close>; an absent key is \<open>None\<close>.\<close>

record node_info =
  ni_node_id :: "string option"
  ni_hostname :: "string option"
  ni_ip_address :: "string option"
  ni_port :: "int option"
  ni_cpu_cores :: "int option"
  ni_cpu_threads :: "int option"
  ni_gpu_count :: "int option"
  ni_gpu_memory :: "int option"
  ni_total_memory :: "int option"

definition get_or :: "'a option \<Rightarrow> 'a \<Rightarrow> 'a" where
  "get_or v d = (case v of None \<Rightarrow> d | Some x \<Rightarrow> x)"

text \<open>The \<open>MiningNode\<close> that \<open>register_node\<close> constructs: the fields it does not pass
  take the defaults of the dataclass.\<close>

definition new_node :: "string \<Rightarrow> node_info \<Rightarrow> rat \<Rightarrow> MiningNode" where
  "new_node nid info now =
     \<lparr>node_id = nid,
      hostname = get_or (ni_hostname info) ''unknown'',
      ip_address = get_or (ni_ip_address info) ''127.0.0.1'',
      port = get_or (ni_port info) 8080,
      status = ''active'',
      last_seen = now,
      cpu_cores = get_or (ni_cpu_cores info) 1,
      cpu_threads = get_or (ni_cpu_threads info) 1,
      gpu_count = get_or (ni_gpu_count info) 0,
      gpu_memory = get_or (ni_gpu_memory info) 0,
      total_memory = get_or (ni_total_memory info) 0,
      hashrate = 0,
      temperature = [],
      power_usage = 0,
      uptime = 0,
      assigned_algorithm = [],
      assigned_pool = [],
      work_segments = []\<rparr>"

text \<open>
  \<open>register_node\<close>, with the clock reading \<open>now\<close> and the identifier \<open>fresh\<close> that
  \<open>uuid4\<close> would give. \<open>node_info.get("node_id") or \<dots>\<close> takes the fresh identifier for
  an absent or empty id. The rebalancing it triggers sends commands to nodes and writes
  nothing to the registry.
\<close>

definition register_node ::
  "ClusterManager \<Rightarrow> node_info \<Rightarrow> string \<Rightarrow> rat \<Rightarrow> ClusterManager \<times> string" where
  "register_node cm info fresh now =
     (let nid = (case ni_node_id info of None \<Rightarrow> fresh | Some i \<Rightarrow> if i = [] then fresh else i)
      in (update_cluster_stats (cm\<lparr>nodes := AList.update nid (new_node nid info now) (nodes cm)\<rparr>),
          nid))"

text \<open>\<open>_stop_node_mining\<close>: the result of the command is not read.\<close>

definition stop_node_mining :: "MiningNode \<Rightarrow> MiningNode" where
  "stop_node_mining node =
     node\<lparr>status := ''inactive'', assigned_algorithm := [], assigned_pool := [],
          work_segments := []\<rparr>"

definition unregister_node :: "ClusterManager \<Rightarrow> string \<Rightarrow> ClusterManager" where
  "unregister_node cm nid =
     (case map_of (nodes cm) nid of
        None \<Rightarrow> cm
      | Some node \<Rightarrow>
          update_cluster_stats
            (cm\<lparr>nodes := AList.delete nid (AList.update nid (stop_node_mining node) (nodes cm))\<rparr>))"

text \<open>The keys \<open>update_node_status\<close> reads from \<open>status_data\<close>.\<close>

record status_data =
  sd_hashrate :: "rat option"
  sd_temperature :: "(string \<times> rat) list option"
  sd_power_usage :: "rat option"
  sd_uptime :: "rat option"
  sd_status :: "string option"
  sd_algorithm :: "string option"
  sd_pool :: "string option"

definition update_node_status ::
  "ClusterManager \<Rightarrow> string \<Rightarrow> status_data \<Rightarrow> rat \<Rightarrow> ClusterManager" where
  "update_node_status cm nid sd now =
     (case map_of (nodes cm) nid of
        None \<Rightarrow> cm
      | Some node \<Rightarrow>
          update_cluster_stats
            (cm\<lparr>nodes := AList.update nid
               (node\<lparr>last_seen := now,
                     hashrate := get_or (sd_hashrate sd) 0,
                     temperature := get_or (sd_temperature sd) [],
                     power_usage := get_or (sd_power_usage sd) 0,
                     uptime := get_or (sd_uptime sd) 0,
                     status := get_or (sd_status sd) ''active'',
                     assigned_algorithm := get_or (sd_algorithm sd) (assigned_algorithm node),
                     assigned_pool := get_or (sd_pool sd) (assigned_pool node)\<rparr>)
               (nodes cm)\<rparr>))"

text \<open>
  What the HTTP request of \<open>_send_node_command\<close> comes to: a response with a status code
  and, in its JSON body, possibly a \<open>success\<close> flag, or an exception (connection refused,
  timeout, a body that is not JSON). The method catches the exception and returns false.
\<close>

datatype http_outcome = Responded int "bool option" | Raised

definition send_node_command :: "http_outcome \<Rightarrow> bool" where
  "send_node_command outcome =
     (case outcome of
        Responded code success \<Rightarrow> if code = 200 then get_or success False else False
      | Raised \<Rightarrow> False)"

text \<open>\<open>assign_work\<close>. No statement of its \<open>try\<close> block other than the command can raise,
  and the command catches its own exceptions.\<close>

definition assign_work ::
  "ClusterManager \<Rightarrow> string \<Rightarrow> string \<Rightarrow> string \<Rightarrow> string list \<Rightarrow> http_outcome
     \<Rightarrow> ClusterManager \<times> bool" where
  "assign_work cm nid alg pool segs outcome =
     (case map_of (nodes cm) nid of
        None \<Rightarrow> (cm, False)
      | Some node \<Rightarrow>
          if send_node_command outcome
          then (cm\<lparr>nodes := AList.update nid
                   (node\<lparr>assigned_algorithm := alg, assigned_pool := pool,
                         work_segments := segs, status := ''mining''\<rparr>)
                   (nodes cm)\<rparr>,
                True)
          else (cm, False))"

text \<open>The registry is consistent when the stored statistics are those recomputed from the
  nodes.\<close>

definition stats_consistent :: "ClusterManager \<Rightarrow> bool" where
  "stats_consistent cm = (cluster_stats cm = compute_cluster_stats (nodes cm))"

section \<open>Example values\<close>

text \<open>A RandomX work unit with the nonce range from 0 to 250000.\<close>

definition example_work :: work where
  "example_work = \<lparr>job_id = Some ''job1'', algorithm = Some ''RandomX'', data = None, target = None,
      height = None, timestamp = None, pool_name = None, difficulty = None,
      nonce_start = Some 0, nonce_end = Some 250000, segment_id = None,
      original_work_id = None\<rparr>"

text \<open>A registration, a status update, and the registry after the registration.\<close>

definition example_info :: node_info where
  "example_info = \<lparr>ni_node_id = Some ''n1'', ni_hostname = Some ''rig-1'', ni_ip_address = None,
      ni_port = None, ni_cpu_cores = Some 8, ni_cpu_threads = Some 16, ni_gpu_count = None,
      ni_gpu_memory = None, ni_total_memory = None\<rparr>"

definition example_status :: status_data where
  "example_status = \<lparr>sd_hashrate = Some 5, sd_temperature = Some [(''cpu'', 60)],
      sd_power_usage = Some 100, sd_uptime = Some 10, sd_status = Some ''mining'',
      sd_algorithm = Some ''SHA256'', sd_pool = Some ''pool-a''\<rparr>"

definition example_manager :: ClusterManager where
  "example_manager = fst (register_node initial_manager example_info ''u1'' 0)"

text \<open>Three configured pools. The second holds the work of a notification that followed
  \<open>mining.set_difficulty\<close> with the difficulty -1: its target is what
  \<open>_difficulty_to_target\<close> renders for -1.\<close>

definition failing_pools :: "pool_connection list" where
  "failing_pools =
     [\<lparr>pc_name = ''alpha'', pc_url = ''alpha.example.org'', pc_connected = False,
       pc_last_work = None, pc_difficulty = 1\<rparr>,
      \<lparr>pc_name = ''beta'', pc_url = ''beta.example.org'', pc_connected = True,
       pc_last_work = Some \<lparr>wu_job_id = ''job7'', wu_algorithm = ''SHA256'', wu_data = ''00'',
          wu_target = ''0000000xffff0000000000000000000000000000000000000000000000000000'',
          wu_height = 0, wu_timestamp = 0, wu_pool_name = ''beta'', wu_difficulty = - 1\<rparr>,
       pc_difficulty = - 1\<rparr>,
      \<lparr>pc_name = ''gamma'', pc_url = ''gamma.example.org'', pc_connected = True,
       pc_last_work = Some \<lparr>wu_job_id = ''job1'', wu_algorithm = ''SHA256'', wu_data = ''00'',
          wu_target = ''00000000ffff0000000000000000000000000000000000000000000000000000'',
          wu_height = 0, wu_timestamp = 0, wu_pool_name = ''gamma'', wu_difficulty = 1\<rparr>,
       pc_difficulty = 1\<rparr>]"

section \<open>Facts about the float model\<close>

lemma round_half_even_err: "\<bar>of_int (round_half_even t) - t\<bar> \<le> 1 / 2"
proof -
  have "of_int \<lfloor>t\<rfloor> \<le> t" "t < of_int \<lfloor>t\<rfloor> + 1" by linarith+
  then show ?thesis unfolding round_half_even_def by (simp add: abs_le_iff)
qed

lemma round_half_even_of_int: "round_half_even (of_int n) = n"
  unfolding round_half_even_def by simp

lemma round_half_even_nonneg: "0 \<le> t \<Longrightarrow> 0 \<le> round_half_even t"
  unfolding round_half_even_def by auto

lemma powi_bitlen_le:
  assumes "0 < p"
  shows "(2::rat) powi (bitlen p - 1) \<le> of_int p"
proof -
  have "1 \<le> bitlen p" using assms by (simp add: bitlen_alt_def)
  moreover have "(2::int) ^ nat (bitlen p - 1) \<le> p" using bitlen_bounds[OF assms] by simp
  then have "(of_int ((2::int) ^ nat (bitlen p - 1)) :: rat) \<le> of_int p"
    by (simp only: of_int_le_iff)
  ultimately show ?thesis by (simp add: power_int_def)
qed

lemma powi_bitlen_gt:
  assumes "0 < q"
  shows "of_int q < (2::rat) powi (bitlen q)"
proof -
  have "0 \<le> bitlen q" by (rule bitlen_nonneg)
  moreover have "q < (2::int) ^ nat (bitlen q)" using bitlen_bounds[OF assms] by simp
  then have "(of_int q :: rat) < of_int ((2::int) ^ nat (bitlen q))"
    by (simp only: of_int_less_iff)
  ultimately show ?thesis by (simp add: power_int_def)
qed

lemma ilog2_lower:
  assumes "0 < x"
  shows "2 powi (ilog2 x) \<le> x"
proof -
  obtain p q where pq: "quotient_of x = (p, q)" by (cases "quotient_of x")
  have q: "0 < q" using quotient_of_denom_pos[OF pq] .
  have x: "x = of_int p / of_int q" using quotient_of_div[OF pq] .
  have p: "0 < p" using assms q x by (simp add: zero_less_divide_iff)
  show ?thesis
  proof (cases "2 powi (bitlen p - bitlen q) \<le> x")
    case True
    then show ?thesis by (simp add: ilog2_def pq)
  next
    case False
    have "(2::rat) powi (bitlen p - bitlen q - 1) = 2 powi (bitlen p - 1) / 2 powi (bitlen q)"
      by (simp add: power_int_diff)
    also have "\<dots> \<le> of_int p / 2 powi (bitlen q)"
      using powi_bitlen_le[OF p] by (simp add: divide_right_mono)
    also have "\<dots> \<le> of_int p / of_int q"
      using powi_bitlen_gt[OF q] p q by (simp add: frac_le)
    finally have "(2::rat) powi (bitlen p - bitlen q - 1) \<le> x" by (simp only: x)
    moreover have "ilog2 x = bitlen p - bitlen q - 1" using False by (simp add: ilog2_def pq)
    ultimately show ?thesis by simp
  qed
qed

lemma rnd64_rel_err:
  assumes "0 < x"
  shows "\<bar>rnd64 x - x\<bar> \<le> x / 2 ^ 53"
proof -
  define e where "e = ilog2 x - 52"
  define t where "t = x / 2 powi e"
  have pe: "(0::rat) < 2 powi e" by simp
  have xt: "x = t * 2 powi e" by (simp add: t_def)
  have "(2::rat) powi (ilog2 x) = 2 ^ 52 * 2 powi e"
    by (simp add: e_def power_int_diff)
  then have "2 ^ 52 * 2 powi e \<le> t * 2 powi e" using ilog2_lower[OF assms] xt by simp
  then have t52: "2 ^ 52 \<le> t" using pe by (simp only: mult_le_cancel_right_pos)
  have r: "rnd64 x = of_int (round_half_even t) * 2 powi e"
    using assms by (simp add: rnd64_def e_def t_def)
  have "rnd64 x - x = (of_int (round_half_even t) - t) * 2 powi e"
    by (simp only: r left_diff_distrib xt[symmetric])
  then have "\<bar>rnd64 x - x\<bar> = \<bar>of_int (round_half_even t) - t\<bar> * 2 powi e"
    using pe by (simp only: abs_mult abs_of_pos)
  also have "\<dots> \<le> (1 / 2) * 2 powi e"
    using round_half_even_err[of t] pe by (simp only: mult_le_cancel_right_pos)
  also have "\<dots> \<le> (t / 2 ^ 53) * 2 powi e"
  proof -
    have "(1::rat) / 2 \<le> t / 2 ^ 53" using t52 by simp
    then show ?thesis using pe by (simp only: mult_le_cancel_right_pos)
  qed
  also have "\<dots> = x / 2 ^ 53" by (simp add: xt)
  finally show ?thesis .
qed

lemma rnd64_nonneg: "0 \<le> x \<Longrightarrow> 0 \<le> rnd64 x"
  unfolding rnd64_def by (auto simp: round_half_even_nonneg)

lemma rnd64_pos_exact:
  assumes m: "0 < m" "m < 2 ^ 53"
  shows "rnd64 (of_int m * 2 powi k) = of_int m * 2 powi k"
proof -
  define x :: rat where "x = of_int m * 2 powi k"
  define e where "e = ilog2 x - 52"
  have xpos: "0 < x" using m by (simp add: x_def)
  have pe: "(0::rat) < 2 powi e" by simp
  have "(2::rat) powi (ilog2 x) = 2 ^ 52 * 2 powi e"
    by (simp add: e_def power_int_diff)
  then have lb: "2 ^ 52 * 2 powi e \<le> x" using ilog2_lower[OF xpos] by simp
  have ke: "e \<le> k"
  proof (rule ccontr)
    assume "\<not> e \<le> k"
    then have "k + 1 \<le> e" by simp
    then have "(2::rat) powi (k + 1) \<le> 2 powi e" by (simp add: power_int_increasing)
    then have "2 ^ 52 * (2::rat) powi (k + 1) \<le> 2 ^ 52 * 2 powi e" by simp
    then have "2 ^ 53 * (2::rat) powi k \<le> x" using lb by (simp add: power_int_add)
    then have "(2::rat) ^ 53 \<le> of_int m" by (simp add: x_def)
    moreover have "(of_int m :: rat) < of_int (2 ^ 53)" using m(2) by (simp only: of_int_less_iff)
    ultimately show False by simp
  qed
  have "x / 2 powi e = of_int m * 2 powi (k - e)"
    by (simp add: x_def power_int_diff)
  also have "\<dots> = of_int (m * 2 ^ nat (k - e))"
    using ke by (simp add: power_int_def)
  finally have t: "x / 2 powi e = of_int (m * 2 ^ nat (k - e))" .
  have "rnd64 x = of_int (round_half_even (x / 2 powi e)) * 2 powi e"
    using xpos by (simp add: rnd64_def e_def)
  also have "\<dots> = (x / 2 powi e) * 2 powi e"
    by (simp only: t round_half_even_of_int)
  also have "\<dots> = x" by simp
  finally show ?thesis by (simp add: x_def)
qed

lemma rnd64_minus: "rnd64 (- x) = - rnd64 x"
  by (simp add: rnd64_def)

lemma rnd64_exact:
  assumes "\<bar>m\<bar> < 2 ^ 53"
  shows "rnd64 (of_int m * 2 powi k) = of_int m * 2 powi k"
proof -
  consider "m = 0" | "0 < m" | "m < 0" by linarith
  then show ?thesis
  proof cases
    case 1
    then show ?thesis by (simp add: rnd64_def)
  next
    case 2
    then show ?thesis using assms by (intro rnd64_pos_exact) auto
  next
    case 3
    then have "rnd64 (of_int (- m) * 2 powi k) = of_int (- m) * 2 powi k"
      using assms by (intro rnd64_pos_exact) auto
    then show ?thesis using rnd64_minus[of "of_int m * 2 powi k"] by simp
  qed
qed

lemma int_truediv_pow2_exact:
  assumes "\<bar>a\<bar> < 2 ^ 53"
  shows "int_truediv a (2 ^ k) = of_int a / 2 ^ k"
proof -
  have "(of_int a :: rat) / of_int (2 ^ k) = of_int a * 2 powi (- int k)"
    by (simp add: power_int_minus field_simps)
  then show ?thesis
    using rnd64_exact[OF assms, of "- int k"] by (simp add: int_truediv_def)
qed

section \<open>Rendering and reading hexadecimal strings\<close>

lemma digit_chars_all:
  "list_all (\<lambda>d. hex_digit_value (digit_char d) = Some d
                 \<and> digit_char d \<noteq> CHR ''+'' \<and> digit_char d \<noteq> CHR ''-'') [0..15]"
  by code_simp

lemma digit_char_props:
  assumes "0 \<le> d" "d < 16"
  shows "hex_digit_value (digit_char d) = Some d"
    and "digit_char d \<noteq> CHR ''+''" and "digit_char d \<noteq> CHR ''-''"
proof -
  from assms have "d \<in> set [0..15]" by simp
  with digit_chars_all show "hex_digit_value (digit_char d) = Some d"
    and "digit_char d \<noteq> CHR ''+''" and "digit_char d \<noteq> CHR ''-''"
    unfolding list_all_iff by blast+
qed

lemma foldl_hex_step_zeros: "foldl hex_step (Some 0) (replicate k CHR ''0'') = Some 0"
  by (induction k) (simp_all add: hex_step_def hex_digit_value_def replicate_app_Cons_same)

lemma digits_of_nonpos: "n \<le> 0 \<Longrightarrow> digits_of b n = []"
  by (subst digits_of.simps) simp

lemma digits_of_pos:
  "0 < n \<Longrightarrow> 1 < b \<Longrightarrow> digits_of b n = digits_of b (n div b) @ [digit_char (n mod b)]"
  by (subst digits_of.simps) simp

lemma foldl_hex_step_digits:
  "0 \<le> n \<Longrightarrow> foldl hex_step (Some 0) (digits_of 16 n) = Some n"
proof (induction "16::int" n rule: digits_of.induct)
  case (1 n)
  show ?case
  proof (cases "n = 0")
    case True
    then show ?thesis by (simp add: digits_of_nonpos)
  next
    case False
    with "1.prems" have pos: "0 < n" by simp
    then have ih: "foldl hex_step (Some 0) (digits_of 16 (n div 16)) = Some (n div 16)"
      using "1.hyps" by simp
    have d: "hex_digit_value (digit_char (n mod 16)) = Some (n mod 16)"
      by (rule digit_char_props) simp_all
    have "digits_of 16 n = digits_of 16 (n div 16) @ [digit_char (n mod 16)]"
      using pos by (simp add: digits_of_pos)
    then show ?thesis by (simp add: ih hex_step_def d)
  qed
qed

lemma digits_of_nonempty: "0 < n \<Longrightarrow> digits_of 16 n \<noteq> []"
  by (simp add: digits_of_pos)

lemma hd_digits_of_not_sign:
  "0 < n \<Longrightarrow> hd (digits_of 16 n) \<noteq> CHR ''+'' \<and> hd (digits_of 16 n) \<noteq> CHR ''-''"
proof (induction "16::int" n rule: digits_of.induct)
  case (1 n)
  have eq: "digits_of 16 n = digits_of 16 (n div 16) @ [digit_char (n mod 16)]"
    using "1.prems" by (simp add: digits_of_pos)
  show ?case
  proof (cases "0 < n div 16")
    case True
    then have "digits_of 16 (n div 16) \<noteq> []" by (rule digits_of_nonempty)
    then have "hd (digits_of 16 n) = hd (digits_of 16 (n div 16))" by (simp add: eq)
    then show ?thesis using "1.hyps" "1.prems" True by simp
  next
    case False
    then have "digits_of 16 (n div 16) = []" by (simp add: digits_of_nonpos)
    then have "hd (digits_of 16 n) = digit_char (n mod 16)" by (simp add: eq)
    then show ?thesis using digit_char_props(2,3)[of "n mod 16"] by simp
  qed
qed

lemma hex_value_rendered:
  assumes "0 \<le> n"
  shows "hex_value (zfill 64 (drop 2 (py_hex n))) = Some n"
proof -
  define s where "s = number_string 16 n"
  have s: "drop 2 (py_hex n) = s" using assms by (simp add: py_hex_def s_def)
  have ne: "s \<noteq> []" using assms digits_of_nonempty[of n] by (simp add: s_def number_string_def)
  have v: "foldl hex_step (Some 0) s = Some n"
  proof (cases "n = 0")
    case True
    then show ?thesis by (simp add: s_def number_string_def hex_step_def hex_digit_value_def)
  next
    case False
    then show ?thesis using assms foldl_hex_step_digits[of n] by (simp add: s_def number_string_def)
  qed
  have sign: "hd s \<noteq> CHR ''+'' \<and> hd s \<noteq> CHR ''-''"
  proof (cases "n = 0")
    case True
    then show ?thesis by (simp add: s_def number_string_def)
  next
    case False
    then show ?thesis using assms hd_digits_of_not_sign[of n] by (simp add: s_def number_string_def)
  qed
  have z: "zfill 64 s = s \<or> zfill 64 s = replicate (64 - length s) CHR ''0'' @ s"
    using ne sign by (cases s) (auto simp: zfill_def)
  then show ?thesis
  proof
    assume "zfill 64 s = s"
    then show ?thesis using ne v by (simp add: s hex_value_def)
  next
    assume "zfill 64 s = replicate (64 - length s) CHR ''0'' @ s"
    then show ?thesis using ne v by (simp add: s hex_value_def foldl_hex_step_zeros)
  qed
qed

lemma length_digits_of:
  "0 \<le> n \<Longrightarrow> n < 16 ^ k \<Longrightarrow> length (digits_of 16 n) \<le> k"
proof (induction k arbitrary: n)
  case 0
  then have "n = 0" by simp
  then show ?case by (simp add: digits_of_nonpos)
next
  case (Suc k)
  show ?case
  proof (cases "n = 0")
    case True
    then show ?thesis by (simp add: digits_of_nonpos)
  next
    case False
    with Suc.prems have pos: "0 < n" by simp
    define m :: int where "m = 16 ^ k"
    have "n < 16 * m" using Suc.prems(2) by (simp add: m_def)
    then have "n div 16 < m" by linarith
    then have "n div 16 < 16 ^ k" by (simp only: m_def)
    moreover have "0 \<le> n div 16" using pos by simp
    ultimately have "length (digits_of 16 (n div 16)) \<le> k" by (intro Suc.IH)
    then show ?thesis using pos by (simp add: digits_of_pos)
  qed
qed

lemma length_rendered:
  assumes "0 \<le> n" and "n < 2 ^ 256"
  shows "length (zfill 64 (drop 2 (py_hex n))) = 64"
proof -
  define s where "s = number_string 16 n"
  have s: "drop 2 (py_hex n) = s" using assms by (simp add: py_hex_def s_def)
  have "n < 16 ^ 64" using assms(2) by simp
  then have "length (digits_of 16 n) \<le> 64" using assms(1) by (intro length_digits_of)
  then have len: "length s \<le> 64" by (simp add: s_def number_string_def)
  have ne: "s \<noteq> []" using assms digits_of_nonempty[of n] by (simp add: s_def number_string_def)
  have sign: "hd s \<noteq> CHR ''+'' \<and> hd s \<noteq> CHR ''-''"
  proof (cases "n = 0")
    case True
    then show ?thesis by (simp add: s_def number_string_def)
  next
    case False
    then show ?thesis
      using assms hd_digits_of_not_sign[of n] by (simp add: s_def number_string_def)
  qed
  show ?thesis
    unfolding s using ne sign len by (cases s) (auto simp: zfill_def)
qed

lemma py_int_nonneg: "0 \<le> x \<Longrightarrow> 0 \<le> py_int x"
  by (simp add: py_int_def)

section \<open>Worker configuration\<close>

text \<open>
  Claim C10. When the selected algorithm is RandomX and the available memory is below
  2 GiB, the configuration has no CPU thread and GPU intensity 0: the cap
  \<open>int(available_gb // 2)\<close>, which is 0 there, is taken as a minimum with the base
  thread count after that count was raised to at least 1. The available memory is a
  number of bytes, so it is not negative.
\<close>

theorem randomx_low_memory_zero_threads:
  assumes "0 \<le> memory_available hw" and "memory_available hw < 2 * 1024 ^ 3"
  shows "cfg_cpu_threads (optimize_worker_configuration hw ''RandomX'') = 0
       \<and> cfg_gpu_intensity (optimize_worker_configuration hw ''RandomX'') = 0"
proof -
  define a where "a = memory_available hw"
  have a: "0 \<le> a" "a < 2 ^ 31" using assms by (simp_all add: a_def)
  then have "\<bar>a\<bar> < 2 ^ 53" by simp
  then have gb: "int_truediv a (1024 ^ 3) = of_int a / 2 ^ 30"
    using int_truediv_pow2_exact[of a 30] by simp
  have "int_truediv a (1024 ^ 3) / 2 = of_int a / of_int (2 ^ 31)"
    unfolding gb by simp
  then have "\<lfloor>int_truediv a (1024 ^ 3) / 2\<rfloor> = a div 2 ^ 31"
    by (simp only: floor_divide_of_int_eq)
  also have "\<dots> = 0" using a by simp
  finally have "float_floordiv (int_truediv a (1024 ^ 3)) 2 = 0"
    by (simp only: float_floordiv_def of_int_0)
  then show ?thesis
    by (simp add: optimize_worker_configuration_def Let_def a_def[symmetric] py_int_def)
qed

text \<open>An 8-core host with 1 GiB available.\<close>

theorem randomx_low_memory_zero_threads_witness:
  "0 \<le> memory_available \<lparr>hw_cpu_cores = Some 8, hw_gpus = [], hw_memory_available = Some 1073741824\<rparr>
   \<and> memory_available \<lparr>hw_cpu_cores = Some 8, hw_gpus = [], hw_memory_available = Some 1073741824\<rparr>
       < 2 * 1024 ^ 3
   \<and> cfg_cpu_threads
         (optimize_worker_configuration
            \<lparr>hw_cpu_cores = Some 8, hw_gpus = [], hw_memory_available = Some 1073741824\<rparr>
            ''RandomX'') = 0
   \<and> cfg_gpu_intensity
         (optimize_worker_configuration
            \<lparr>hw_cpu_cores = Some 8, hw_gpus = [], hw_memory_available = Some 1073741824\<rparr>
            ''RandomX'') = 0"
  using randomx_low_memory_zero_threads
          [of "\<lparr>hw_cpu_cores = Some 8, hw_gpus = [], hw_memory_available = Some 1073741824\<rparr>"]
  by (simp add: memory_available_def)

section \<open>Difficulty and target\<close>

lemma float_of_diff1: "float_of_int diff1_target = of_int diff1_target"
proof -
  have "rnd64 (of_int 65535 * 2 powi 208) = of_int 65535 * 2 powi 208"
    by (rule rnd64_exact) simp
  then show ?thesis by (simp add: float_of_int_def diff1_target_def)
qed

lemma target_of_1:
  "difficulty_to_target 1 = Inr ''00000000ffff0000000000000000000000000000000000000000000000000000''"
  by code_simp

lemma target_of_2:
  "difficulty_to_target 2 = Inr ''000000007fff8000000000000000000000000000000000000000000000000000''"
  by code_simp

lemma value_of_1:
  "hex_value ''00000000ffff0000000000000000000000000000000000000000000000000000'' = Some diff1_target"
  by code_simp

lemma value_of_2:
  "hex_value ''000000007fff8000000000000000000000000000000000000000000000000000'' = Some (diff1_target div 2)"
  by code_simp

lemma target_general:
  assumes "0 < d" and "fdiv (float_of_int diff1_target) d < 2 ^ 1024"
  shows "\<exists>s. difficulty_to_target d = Inr s
           \<and> hex_value s = Some (py_int (fdiv (float_of_int diff1_target) d))
           \<and> (py_int (fdiv (float_of_int diff1_target) d) < 2 ^ 256 \<longrightarrow> length s = 64)"
proof -
  define n where "n = py_int (fdiv (float_of_int diff1_target) d)"
  have "0 \<le> of_int diff1_target / d" using assms(1) by (simp add: diff1_target_def)
  then have q: "0 \<le> fdiv (float_of_int diff1_target) d"
    by (simp add: fdiv_def float_of_diff1 rnd64_nonneg)
  then have n: "0 \<le> n" unfolding n_def by (rule py_int_nonneg)
  have "\<bar>fdiv (float_of_int diff1_target) d\<bar> < 2 ^ 1024" using q assms(2) by simp
  then have "difficulty_to_target d = Inr (zfill 64 (drop 2 (py_hex n)))"
    using assms(1) by (simp add: difficulty_to_target_def n_def)
  moreover have "hex_value (zfill 64 (drop 2 (py_hex n))) = Some n"
    by (rule hex_value_rendered[OF n])
  moreover have "n < 2 ^ 256 \<longrightarrow> length (zfill 64 (drop 2 (py_hex n))) = 64"
    using length_rendered[OF n] by blast
  ultimately show ?thesis unfolding n_def by blast
qed

lemma quotient_pow2_exact:
  assumes "k \<le> 208"
  shows "fdiv (float_of_int diff1_target) (2 ^ k) = of_int (diff1_target div 2 ^ k)"
proof -
  have d: "diff1_target = 65535 * 2 ^ 208" by (simp add: diff1_target_def)
  have split: "(2::int) ^ 208 = 2 ^ (208 - k) * 2 ^ k"
    using assms by (simp add: power_add[symmetric])
  have q: "diff1_target div 2 ^ k = 65535 * 2 ^ (208 - k)"
    unfolding d split by simp
  have "(of_int diff1_target :: rat) / 2 ^ k = of_int (65535 * 2 ^ (208 - k))"
  proof -
    have "(of_int diff1_target :: rat) = of_int (65535 * 2 ^ (208 - k)) * 2 ^ k"
      unfolding d split by simp
    then show ?thesis by simp
  qed
  also have "\<dots> = of_int 65535 * 2 powi (int (208 - k))"
    by (simp add: power_int_def)
  finally have e: "(of_int diff1_target :: rat) / 2 ^ k = of_int 65535 * 2 powi (int (208 - k))" .
  have "rnd64 (of_int 65535 * 2 powi (int (208 - k))) = of_int 65535 * 2 powi (int (208 - k))"
    by (rule rnd64_exact) simp
  then have "fdiv (float_of_int diff1_target) (2 ^ k) = of_int 65535 * 2 powi (int (208 - k))"
    by (simp only: fdiv_def float_of_diff1 e)
  also have "\<dots> = of_int (65535 * 2 ^ (208 - k))" by (simp add: power_int_def)
  finally show ?thesis by (simp only: q)
qed

lemma py_int_of_int: "py_int (of_int n) = n"
  by (simp add: py_int_def)

lemma quotient_rel_err:
  assumes "0 < d"
  shows "\<bar>fdiv (float_of_int diff1_target) d - of_int diff1_target / d\<bar>
           \<le> of_int diff1_target / d / 2 ^ 53"
proof -
  have "0 < (of_int diff1_target :: rat) / d" using assms by (simp add: diff1_target_def)
  then show ?thesis
    unfolding fdiv_def float_of_diff1 by (rule rnd64_rel_err)
qed

text \<open>
  Claim C2 says that the string encodes the integer \<open>diff1_target / d\<close> in general. The
  quotient is a float: at difficulty 7 the string encodes the integer part of the rounded
  quotient, which is not the integer quotient of \<open>diff1_target\<close> by 7.
\<close>

theorem difficulty_7_rounded_counterexample:
  "difficulty_to_target 7 = Inr ''0000000024922492492492000000000000000000000000000000000000000000''
   \<and> hex_value ''0000000024922492492492000000000000000000000000000000000000000000''
       = Some 3851362184430186963552519718757385316532037769691036860328615870464
   \<and> diff1_target div 7 = 3851362184430187070450925192103427333715842676939166298019681870994
   \<and> hex_value ''0000000024922492492492000000000000000000000000000000000000000000''
       \<noteq> Some (diff1_target div 7)"
  by code_simp

text \<open>
  Claim C2, as amended. \<open>difficulty_to_target 1\<close> is the difficulty-1 target as 64
  hexadecimal digits and \<open>difficulty_to_target 2\<close> encodes exactly half of it. For every
  positive difficulty whose float quotient is finite, the returned string encodes
  \<open>int(diff1_target / d)\<close>, the integer part of the float quotient, in 64 digits when that
  integer is below \<open>2 ^ 256\<close>. The float quotient is within the relative error \<open>2 ^ -53\<close> of
  \<open>diff1_target / d\<close>, and for a difficulty \<open>2 ^ k\<close> with \<open>k \<le> 208\<close> its integer part is
  exactly the integer quotient.
\<close>

theorem difficulty_to_target_encodes:
  "difficulty_to_target 1 = Inr ''00000000ffff0000000000000000000000000000000000000000000000000000''
   \<and> hex_value ''00000000ffff0000000000000000000000000000000000000000000000000000''
        = Some diff1_target
   \<and> difficulty_to_target 2 = Inr ''000000007fff8000000000000000000000000000000000000000000000000000''
   \<and> hex_value ''000000007fff8000000000000000000000000000000000000000000000000000''
        = Some (diff1_target div 2)
   \<and> 2 * (diff1_target div 2) = diff1_target
   \<and> (\<forall>d. 0 < d \<and> fdiv (float_of_int diff1_target) d < 2 ^ 1024 \<longrightarrow>
          (\<exists>s. difficulty_to_target d = Inr s
               \<and> hex_value s = Some (py_int (fdiv (float_of_int diff1_target) d))
               \<and> (py_int (fdiv (float_of_int diff1_target) d) < 2 ^ 256 \<longrightarrow> length s = 64)))
   \<and> (\<forall>d. 0 < d \<longrightarrow>
          \<bar>fdiv (float_of_int diff1_target) d - of_int diff1_target / d\<bar>
            \<le> of_int diff1_target / d / 2 ^ 53)
   \<and> (\<forall>k. k \<le> 208 \<longrightarrow>
          py_int (fdiv (float_of_int diff1_target) (2 ^ k)) = diff1_target div 2 ^ k)"
proof -
  have "2 * (diff1_target div 2) = diff1_target" by (simp add: diff1_target_def)
  moreover have "\<forall>d. 0 < d \<and> fdiv (float_of_int diff1_target) d < 2 ^ 1024 \<longrightarrow>
          (\<exists>s. difficulty_to_target d = Inr s
               \<and> hex_value s = Some (py_int (fdiv (float_of_int diff1_target) d))
               \<and> (py_int (fdiv (float_of_int diff1_target) d) < 2 ^ 256 \<longrightarrow> length s = 64))"
    using target_general by blast
  moreover have "\<forall>d. 0 < d \<longrightarrow>
          \<bar>fdiv (float_of_int diff1_target) d - of_int diff1_target / d\<bar>
            \<le> of_int diff1_target / d / 2 ^ 53"
    using quotient_rel_err by blast
  moreover have "\<forall>k. k \<le> 208 \<longrightarrow>
          py_int (fdiv (float_of_int diff1_target) (2 ^ k)) = diff1_target div 2 ^ k"
    by (simp add: quotient_pow2_exact py_int_of_int)
  ultimately show ?thesis
    using target_of_1 target_of_2 value_of_1 value_of_2 by blast
qed

text \<open>Difficulty 4, which is \<open>2 ^ 2\<close>.\<close>

lemma quotient_4:
  "(0::rat) < 4 \<and> fdiv (float_of_int diff1_target) 4 < 2 ^ 1024
   \<and> py_int (fdiv (float_of_int diff1_target) 4) < 2 ^ 256 \<and> (2::nat) \<le> 208"
  by code_simp

theorem difficulty_to_target_encodes_witness:
  "(0::rat) < 4 \<and> fdiv (float_of_int diff1_target) 4 < 2 ^ 1024
   \<and> py_int (fdiv (float_of_int diff1_target) 4) < 2 ^ 256
   \<and> (2::nat) \<le> 208
   \<and> (\<exists>s. difficulty_to_target 4 = Inr s
            \<and> hex_value s = Some (py_int (fdiv (float_of_int diff1_target) 4))
            \<and> length s = 64)
   \<and> \<bar>fdiv (float_of_int diff1_target) 4 - of_int diff1_target / 4\<bar>
        \<le> of_int diff1_target / 4 / 2 ^ 53
   \<and> py_int (fdiv (float_of_int diff1_target) (2 ^ 2)) = diff1_target div 2 ^ 2"
  using difficulty_to_target_encodes quotient_4 by blast

section \<open>Worker efficiency\<close>

lemma rnd64_upper: assumes "0 < x" shows "rnd64 x \<le> x + x / 2 ^ 53"
proof -
  have "\<bar>rnd64 x - x\<bar> \<le> x / 2 ^ 53" by (rule rnd64_rel_err[OF assms])
  then show ?thesis by linarith
qed

lemma rnd64_lower: assumes "0 < x" shows "x - x / 2 ^ 53 \<le> rnd64 x"
proof -
  have "\<bar>rnd64 x - x\<bar> \<le> x / 2 ^ 53" by (rule rnd64_rel_err[OF assms])
  then show ?thesis by linarith
qed

lemma fmul_0_98_le: assumes "0 \<le> e" shows "fmul e f_0_98 \<le> e"
proof (cases "e = 0")
  case True
  then show ?thesis by (simp add: fmul_def rnd64_def)
next
  case False
  with assms have e: "0 < e" by simp
  then have x: "0 < e * f_0_98" by (simp add: f_0_98_def)
  have "fmul e f_0_98 \<le> e * f_0_98 + e * f_0_98 / 2 ^ 53"
    unfolding fmul_def by (rule rnd64_upper[OF x])
  also have "\<dots> = e * (f_0_98 + f_0_98 / 2 ^ 53)" by (simp add: algebra_simps)
  also have "\<dots> \<le> e * 1"
    by (rule mult_left_mono) (simp_all add: f_0_98_def assms)
  finally show ?thesis by simp
qed

lemma fmul_1_01_ge: assumes "0 \<le> e" shows "e \<le> fmul e f_1_01"
proof (cases "e = 0")
  case True
  then show ?thesis by (simp add: fmul_def rnd64_def)
next
  case False
  with assms have e: "0 < e" by simp
  then have x: "0 < e * f_1_01" by (simp add: f_1_01_def)
  have "e * 1 \<le> e * (f_1_01 - f_1_01 / 2 ^ 53)"
    by (rule mult_left_mono) (simp_all add: f_1_01_def assms)
  also have "\<dots> = e * f_1_01 - e * f_1_01 / 2 ^ 53" by (simp add: algebra_simps)
  also have "\<dots> \<le> fmul e f_1_01"
    unfolding fmul_def by (rule rnd64_lower[OF x])
  finally show ?thesis by simp
qed

lemma efficiency_of_initial: "efficiency_of initial_optimizer w = 1"
  by (simp add: efficiency_of_def initial_optimizer_def)

lemma efficiency_of_rejection:
  "efficiency_of (record_rejection opt v) w =
     (if w = v then max f_0_1 (fmul (efficiency_of opt w) f_0_98) else efficiency_of opt w)"
  by (simp add: record_rejection_def efficiency_of_def)

lemma efficiency_of_performance:
  "efficiency_of (record_performance opt m) w =
     (if m_worker_id m = Some w \<and> w \<noteq> [] \<and> (case m_rejection_rate m of None \<Rightarrow> 0 | Some r \<Rightarrow> r) < f_0_02
      then min 2 (fmul (efficiency_of opt w) f_1_01) else efficiency_of opt w)"
  by (auto simp: record_performance_def efficiency_of_def Let_def split: option.splits)

lemma f_0_1_bounds: "1 / 10 \<le> f_0_1" "0 \<le> f_0_1" "f_0_1 \<le> 2"
  by (simp_all add: f_0_1_def)

lemma report_keeps_bounds:
  assumes "\<And>w. f_0_1 \<le> efficiency_of opt w \<and> efficiency_of opt w \<le> 2"
  shows "f_0_1 \<le> efficiency_of (record_report opt r) w \<and> efficiency_of (record_report opt r) w \<le> 2"
proof -
  have b: "f_0_1 \<le> efficiency_of opt w" "efficiency_of opt w \<le> 2" using assms by simp_all
  then have nn: "0 \<le> efficiency_of opt w" using f_0_1_bounds(2) by linarith
  show ?thesis
  proof (cases r)
    case (Rejection v)
    have "fmul (efficiency_of opt w) f_0_98 \<le> 2" using fmul_0_98_le[OF nn] b by linarith
    then show ?thesis using b f_0_1_bounds by (auto simp: Rejection efficiency_of_rejection)
  next
    case (Performance m)
    have "f_0_1 \<le> fmul (efficiency_of opt w) f_1_01" using fmul_1_01_ge[OF nn] b by linarith
    then show ?thesis using b f_0_1_bounds by (auto simp: Performance efficiency_of_performance)
  qed
qed

lemma reports_keep_bounds:
  assumes "\<And>w. f_0_1 \<le> efficiency_of opt w \<and> efficiency_of opt w \<le> 2"
  shows "f_0_1 \<le> efficiency_of (record_all opt rs) w \<and> efficiency_of (record_all opt rs) w \<le> 2"
  using assms
proof (induction rs arbitrary: opt w)
  case Nil
  then show ?case by (simp add: record_all_def)
next
  case (Cons r rs)
  have "f_0_1 \<le> efficiency_of (record_all (record_report opt r) rs) w
      \<and> efficiency_of (record_all (record_report opt r) rs) w \<le> 2"
    by (rule Cons.IH) (rule report_keeps_bounds, rule Cons.prems)
  then show ?case by (simp add: record_all_def)
qed

lemma reachable_bounds:
  "f_0_1 \<le> efficiency_of (record_all initial_optimizer rs) w
   \<and> efficiency_of (record_all initial_optimizer rs) w \<le> 2"
  by (rule reports_keep_bounds) (simp add: efficiency_of_initial f_0_1_def)

lemma rejections_not_increasing:
  assumes "\<And>w. f_0_1 \<le> efficiency_of opt w \<and> efficiency_of opt w \<le> 2"
    and "list_all is_rejection rs"
  shows "efficiency_of (record_all opt rs) w \<le> efficiency_of opt w"
  using assms
proof (induction rs arbitrary: opt)
  case Nil
  then show ?case by (simp add: record_all_def)
next
  case (Cons r rs)
  from Cons.prems(2) obtain v where r: "r = Rejection v" by (cases r) simp_all
  have b: "f_0_1 \<le> efficiency_of opt w" using Cons.prems(1) by simp
  then have nn: "0 \<le> efficiency_of opt w" using f_0_1_bounds(2) by linarith
  have step: "efficiency_of (record_report opt r) w \<le> efficiency_of opt w"
    using fmul_0_98_le[OF nn] b by (auto simp: r efficiency_of_rejection)
  have "efficiency_of (record_all (record_report opt r) rs) w \<le> efficiency_of (record_report opt r) w"
  proof (rule Cons.IH)
    show "\<And>w. f_0_1 \<le> efficiency_of (record_report opt r) w \<and> efficiency_of (record_report opt r) w \<le> 2"
      by (rule report_keeps_bounds) (rule Cons.prems(1))
    show "list_all is_rejection rs" using Cons.prems(2) by simp
  qed
  then show ?case using step by (simp add: record_all_def)
qed

lemma clean_not_decreasing:
  assumes "\<And>w. f_0_1 \<le> efficiency_of opt w \<and> efficiency_of opt w \<le> 2"
    and "list_all is_clean rs"
  shows "efficiency_of opt w \<le> efficiency_of (record_all opt rs) w"
  using assms
proof (induction rs arbitrary: opt)
  case Nil
  then show ?case by (simp add: record_all_def)
next
  case (Cons r rs)
  from Cons.prems(2) obtain m where r: "r = Performance m" by (cases r) simp_all
  have b: "f_0_1 \<le> efficiency_of opt w" "efficiency_of opt w \<le> 2" using Cons.prems(1) by simp_all
  then have nn: "0 \<le> efficiency_of opt w" using f_0_1_bounds(2) by linarith
  have step: "efficiency_of opt w \<le> efficiency_of (record_report opt r) w"
    using fmul_1_01_ge[OF nn] b by (auto simp: r efficiency_of_performance)
  have "efficiency_of (record_report opt r) w \<le> efficiency_of (record_all (record_report opt r) rs) w"
  proof (rule Cons.IH)
    show "\<And>w. f_0_1 \<le> efficiency_of (record_report opt r) w \<and> efficiency_of (record_report opt r) w \<le> 2"
      by (rule report_keeps_bounds) (rule Cons.prems(1))
    show "list_all is_clean rs" using Cons.prems(2) by simp
  qed
  then show ?case using step by (simp add: record_all_def)
qed

text \<open>
  Claim C7. A worker's efficiency starts at 1.0; a recorded rejection multiplies it by 0.98
  with floor 0.1, a performance sample of that worker with a rejection rate below 0.02
  multiplies it by 1.01 with ceiling 2.0. In every state the optimizer reaches from its
  initial one, a sequence of rejections does not raise any worker's efficiency, a sequence
  of clean samples does not lower it, and it always lies in \<open>[0.1, 2.0]\<close>.
\<close>

theorem worker_efficiency_feedback:
  "efficiency_of initial_optimizer w = 1
   \<and> efficiency_of (record_rejection opt w) w = max f_0_1 (fmul (efficiency_of opt w) f_0_98)
   \<and> (w \<noteq> [] \<and> r < f_0_02 \<longrightarrow>
        efficiency_of (record_performance opt \<lparr>m_worker_id = Some w, m_rejection_rate = Some r\<rparr>) w
          = min 2 (fmul (efficiency_of opt w) f_1_01))
   \<and> (list_all is_rejection rs \<longrightarrow>
        efficiency_of (record_all (record_all initial_optimizer rs0) rs) w
          \<le> efficiency_of (record_all initial_optimizer rs0) w)
   \<and> (list_all is_clean rs \<longrightarrow>
        efficiency_of (record_all initial_optimizer rs0) w
          \<le> efficiency_of (record_all (record_all initial_optimizer rs0) rs) w)
   \<and> 1 / 10 \<le> efficiency_of (record_all initial_optimizer rs0) w
   \<and> efficiency_of (record_all initial_optimizer rs0) w \<le> 2"
proof -
  have inv: "\<And>v. f_0_1 \<le> efficiency_of (record_all initial_optimizer rs0) v
               \<and> efficiency_of (record_all initial_optimizer rs0) v \<le> 2"
    by (rule reachable_bounds)
  have a: "list_all is_rejection rs \<longrightarrow>
        efficiency_of (record_all (record_all initial_optimizer rs0) rs) w
          \<le> efficiency_of (record_all initial_optimizer rs0) w"
    using rejections_not_increasing[OF inv] by blast
  have b: "list_all is_clean rs \<longrightarrow>
        efficiency_of (record_all initial_optimizer rs0) w
          \<le> efficiency_of (record_all (record_all initial_optimizer rs0) rs) w"
    using clean_not_decreasing[OF inv] by blast
  have c: "1 / 10 \<le> efficiency_of (record_all initial_optimizer rs0) w"
    using inv[of w] f_0_1_bounds(1) by linarith
  show ?thesis
    using a b c inv[of w]
    by (simp add: efficiency_of_initial efficiency_of_rejection efficiency_of_performance)
qed

text \<open>Worker \<open>w1\<close>: two rejections, and one sample with no rejection.\<close>

theorem worker_efficiency_feedback_witness:
  "''w1'' \<noteq> [] \<and> (0::rat) < f_0_02
   \<and> efficiency_of (record_performance initial_optimizer
                      \<lparr>m_worker_id = Some ''w1'', m_rejection_rate = Some 0\<rparr>) ''w1''
       = min 2 (fmul (efficiency_of initial_optimizer ''w1'') f_1_01)
   \<and> list_all is_rejection [Rejection ''w1'', Rejection ''w2'']
   \<and> efficiency_of (record_all (record_all initial_optimizer []) [Rejection ''w1'', Rejection ''w2'']) ''w1''
       \<le> efficiency_of (record_all initial_optimizer []) ''w1''
   \<and> list_all is_clean [Performance \<lparr>m_worker_id = Some ''w1'', m_rejection_rate = Some 0\<rparr>]
   \<and> efficiency_of (record_all initial_optimizer []) ''w1''
       \<le> efficiency_of (record_all (record_all initial_optimizer [])
                          [Performance \<lparr>m_worker_id = Some ''w1'', m_rejection_rate = Some 0\<rparr>]) ''w1''"
  using worker_efficiency_feedback[of "''w1''" initial_optimizer 0 "[Rejection ''w1'', Rejection ''w2'']" "[]"]
    worker_efficiency_feedback[of "''w1''" initial_optimizer 0
      "[Performance \<lparr>m_worker_id = Some ''w1'', m_rejection_rate = Some 0\<rparr>]" "[]"]
  by (simp add: f_0_02_def)

section \<open>Expected hashrate\<close>

text \<open>
  A node with one core and one thread on SHA256: its hardware score times the multiplier is
  15, its expected hashrate is 15000.
\<close>

theorem expected_hashrate_scaled_counterexample:
  "expected_hashrate
     \<lparr>node_id = ''n1'', hostname = ''unknown'', ip_address = ''127.0.0.1'', port = 8080,
      status = ''mining'', last_seen = 0, cpu_cores = 1, cpu_threads = 1, gpu_count = 0,
      gpu_memory = 0, total_memory = 0, hashrate = 0, temperature = [], power_usage = 0,
      uptime = 0, assigned_algorithm = ''SHA256'', assigned_pool = ''pool-a'',
      work_segments = []\<rparr> = 15000
   \<and> fmul (calculate_hardware_score
        \<lparr>node_id = ''n1'', hostname = ''unknown'', ip_address = ''127.0.0.1'', port = 8080,
         status = ''mining'', last_seen = 0, cpu_cores = 1, cpu_threads = 1, gpu_count = 0,
         gpu_memory = 0, total_memory = 0, hashrate = 0, temperature = [], power_usage = 0,
         uptime = 0, assigned_algorithm = ''SHA256'', assigned_pool = ''pool-a'',
         work_segments = []\<rparr>) (algorithm_multipliers ''SHA256'') = 15
   \<and> expected_hashrate
     \<lparr>node_id = ''n1'', hostname = ''unknown'', ip_address = ''127.0.0.1'', port = 8080,
      status = ''mining'', last_seen = 0, cpu_cores = 1, cpu_threads = 1, gpu_count = 0,
      gpu_memory = 0, total_memory = 0, hashrate = 0, temperature = [], power_usage = 0,
      uptime = 0, assigned_algorithm = ''SHA256'', assigned_pool = ''pool-a'',
      work_segments = []\<rparr>
     \<noteq> fmul (calculate_hardware_score
        \<lparr>node_id = ''n1'', hostname = ''unknown'', ip_address = ''127.0.0.1'', port = 8080,
         status = ''mining'', last_seen = 0, cpu_cores = 1, cpu_threads = 1, gpu_count = 0,
         gpu_memory = 0, total_memory = 0, hashrate = 0, temperature = [], power_usage = 0,
         uptime = 0, assigned_algorithm = ''SHA256'', assigned_pool = ''pool-a'',
         work_segments = []\<rparr>) (algorithm_multipliers ''SHA256'')"
  by code_simp

text \<open>
  Claim C3, as amended. The expected hashrate is the hardware score
  \<open>cores*10 + threads*5 + gpu_count*50 + gpu_memory_GiB*20 + total_memory_GiB*2\<close> times the
  algorithm multiplier (SHA256 1.0, Ethash 1.2, RandomX 0.8, Scrypt 0.6, any other 1.0)
  times 1000, each operation a float operation.
\<close>

theorem expected_hashrate_formula:
  "expected_hashrate node =
     fmul (fmul (calculate_hardware_score node) (algorithm_multipliers (assigned_algorithm node)))
       1000
   \<and> calculate_hardware_score node =
       fadd (fadd (float_of_int (cpu_cores node * 10 + cpu_threads node * 5))
               (fadd (float_of_int (gpu_count node * 50))
                  (fmul (int_truediv (gpu_memory node) (1024 ^ 3)) 20)))
         (fmul (int_truediv (total_memory node) (1024 ^ 3)) 2)
   \<and> algorithm_multipliers alg =
       (if alg = ''SHA256'' then 1 else if alg = ''Ethash'' then f_1_2
        else if alg = ''RandomX'' then f_0_8 else if alg = ''Scrypt'' then f_0_6 else 1)"
  by (simp add: expected_hashrate_def calculate_hardware_score_def Let_def
        algorithm_multipliers_def)

section \<open>Work segmentation\<close>

lemma float_of_int_nonneg: "0 \<le> n \<Longrightarrow> 0 \<le> float_of_int n"
  by (simp add: float_of_int_def rnd64_nonneg)

lemma fmul_nonneg: "0 \<le> a \<Longrightarrow> 0 \<le> b \<Longrightarrow> 0 \<le> fmul a b"
  by (simp add: fmul_def rnd64_nonneg)

lemma base_sizes_pos: "0 < base_sizes alg"
  by (simp add: base_sizes_def)

lemma calculate_base_segment_size_nonneg: "0 \<le> calculate_base_segment_size alg d"
proof -
  have "0 \<le> float_of_int (base_sizes alg)"
    using base_sizes_pos[of alg] by (intro float_of_int_nonneg) simp
  moreover have "0 \<le> min 2 (max f_0_1 (int_truediv d diff1_target))"
    using f_0_1_bounds(2) by simp
  ultimately show ?thesis
    unfolding calculate_base_segment_size_def by (intro py_int_nonneg fmul_nonneg)
qed

lemma adjusted_segment_size_nonneg:
  assumes "0 \<le> efficiency_of opt worker_id"
  shows "0 \<le> adjusted_segment_size opt w worker_id"
  unfolding adjusted_segment_size_def
  by (intro py_int_nonneg fmul_nonneg float_of_int_nonneg calculate_base_segment_size_nonneg assms)

lemma segment_loop_step:
  "cur < ne \<Longrightarrow>
     segment_loop w wid adj ne cur k acc =
       segment_loop w wid adj ne (min (cur + adj) ne + 1) (k + 1)
         (acc @ [make_segment w wid cur (min (cur + adj) ne) k])"
  by (subst segment_loop.simps) simp

lemma segment_loop_done: "\<not> cur < ne \<Longrightarrow> segment_loop w wid adj ne cur k acc = Some acc"
  by (subst segment_loop.simps) simp

lemma segment_loop_returns:
  assumes "0 \<le> adj"
  shows "\<exists>r. segment_loop w wid adj ne cur k acc = Some r
             \<and> int (length r) \<le> int (length acc) + max 0 (ne - cur)"
proof (induction "nat (ne - cur)" arbitrary: cur k acc rule: less_induct)
  case less
  show ?case
  proof (cases "cur < ne")
    case False
    then have "segment_loop w wid adj ne cur k acc = Some acc"
      by (rule segment_loop_done)
    then show ?thesis by simp
  next
    case True
    define nxt where "nxt = min (cur + adj) ne + 1"
    define acc' where "acc' = acc @ [make_segment w wid cur (min (cur + adj) ne) k]"
    have adv: "cur + 1 \<le> nxt" using assms True by (simp add: nxt_def)
    then have "nat (ne - nxt) < nat (ne - cur)" using True by simp
    then obtain r where r: "segment_loop w wid adj ne nxt (k + 1) acc' = Some r"
      and len: "int (length r) \<le> int (length acc') + max 0 (ne - nxt)"
      using less.hyps by blast
    have "segment_loop w wid adj ne cur k acc = segment_loop w wid adj ne nxt (k + 1) acc'"
      using segment_loop_step[OF True] by (simp add: nxt_def acc'_def)
    moreover have "int (length acc') + max 0 (ne - nxt) \<le> int (length acc) + max 0 (ne - cur)"
      using adv True by (simp add: acc'_def)
    ultimately show ?thesis using r len by auto
  qed
qed

text \<open>
  Claim C9. For every work dictionary and every worker whose efficiency is not negative,
  the adjusted segment size is not negative, so each iteration moves the current nonce
  forward by at least one: \<open>segment_work\<close> returns, with at most
  \<open>nonce_end - nonce_start\<close> segments, also when the adjusted size is 0.
\<close>

theorem segment_work_terminates:
  assumes "0 \<le> efficiency_of opt worker_id"
  shows "0 \<le> adjusted_segment_size opt w worker_id
       \<and> (\<exists>segments. segment_work opt w worker_id = Some segments
             \<and> int (length segments)
                 \<le> max 0 ((case nonce_end w of None \<Rightarrow> 0xFFFFFFFF | Some e \<Rightarrow> e)
                            - (case nonce_start w of None \<Rightarrow> 0 | Some s \<Rightarrow> s)))"
proof -
  have a: "0 \<le> adjusted_segment_size opt w worker_id"
    by (rule adjusted_segment_size_nonneg[OF assms])
  show ?thesis
    using a segment_loop_returns[OF a, of w worker_id
        "case nonce_end w of None \<Rightarrow> 0xFFFFFFFF | Some e \<Rightarrow> e"
        "case nonce_start w of None \<Rightarrow> 0 | Some s \<Rightarrow> s" 0 "[]"]
    by (simp add: segment_work_def)
qed

lemma adj0: "adjusted_segment_size initial_optimizer example_work ''w1'' = 100000"
  by code_simp

lemma ranges0:
  "map_option (map segment_range) (segment_work initial_optimizer example_work ''w1'')
     = Some [(0, 100000), (100001, 200001), (200002, 250000)]"
proof -
  have "segment_work initial_optimizer example_work ''w1'' = segment_loop example_work ''w1'' 100000 250000 0 0 []"
    by (simp add: segment_work_def adj0) (simp add: example_work_def)
  then show ?thesis
    by (simp add: segment_loop_step segment_loop_done)
       (simp add: make_segment_def segment_range_def)
qed


lemma not_covered0:
  "map_option (\<lambda>segments. covered segments 100000)
     (segment_work initial_optimizer example_work ''w1'') = Some False"
proof -
  have "segment_work initial_optimizer example_work ''w1'' = segment_loop example_work ''w1'' 100000 250000 0 0 []"
    by (simp add: segment_work_def adj0) (simp add: example_work_def)
  then show ?thesis
    by (simp add: segment_loop_step segment_loop_done)
       (simp add: make_segment_def segment_range_def covered_def)
qed

text \<open>
  Claim C1 asks that the segments tile the range. On the range from 0 to 250000 with
  segments of 100000 nonces the loop restarts one past each segment's end: the ranges are
  \<open>[0, 100000)\<close>, \<open>[100001, 200001)\<close> and \<open>[200002, 250000)\<close>, and nonce 100000 is in none
  of them.
\<close>

theorem segment_work_skips_nonce:
  "map_option (map segment_range) (segment_work initial_optimizer example_work ''w1'')
     = Some [(0, 100000), (100001, 200001), (200002, 250000)]
   \<and> nonce_start example_work = Some 0 \<and> nonce_end example_work = Some 250000
   \<and> map_option (\<lambda>segments. covered segments 100000)
         (segment_work initial_optimizer example_work ''w1'') = Some False"
  using ranges0 not_covered0 by (simp add: example_work_def)

text \<open>The same work for a worker with the default efficiency.\<close>

theorem segment_work_terminates_witness:
  "0 \<le> efficiency_of initial_optimizer ''w1''
   \<and> 0 \<le> adjusted_segment_size initial_optimizer example_work ''w1''
   \<and> (\<exists>segments. segment_work initial_optimizer example_work ''w1'' = Some segments
          \<and> int (length segments) \<le> 250000)"
  using segment_work_terminates[of initial_optimizer "''w1''" example_work]
  by (simp add: efficiency_of_initial example_work_def)

section \<open>The node registry\<close>

lemma send_node_command_cases:
  "send_node_command Raised = False"
  "send_node_command (Responded 200 (Some b)) = b"
  "send_node_command (Responded 200 None) = False"
  "code \<noteq> 200 \<Longrightarrow> send_node_command (Responded code s) = False"
  by (simp_all add: send_node_command_def get_or_def)

text \<open>
  Claim C6. For a registered node: when the assignment command fails (a response other
  than 200, a response without a true \<open>success\<close>, or an exception), \<open>assign_work\<close> returns
  false and the registry is what it was; when it succeeds, \<open>assign_work\<close> returns true, the
  node's algorithm, pool and segments are the arguments and its status is \<open>mining\<close>, its
  other fields, the other nodes and the order of the registry are unchanged.
\<close>

theorem assign_work_outcome:
  assumes "map_of (nodes cm) nid = Some node"
  shows "(\<not> send_node_command outcome \<longrightarrow>
            assign_work cm nid alg pool segs outcome = (cm, False))
       \<and> (send_node_command outcome \<longrightarrow>
            snd (assign_work cm nid alg pool segs outcome) = True
            \<and> map_of (nodes (fst (assign_work cm nid alg pool segs outcome))) nid =
                Some (node\<lparr>assigned_algorithm := alg, assigned_pool := pool,
                            work_segments := segs, status := ''mining''\<rparr>)
            \<and> (\<forall>k. k \<noteq> nid \<longrightarrow>
                  map_of (nodes (fst (assign_work cm nid alg pool segs outcome))) k
                    = map_of (nodes cm) k)
            \<and> map fst (nodes (fst (assign_work cm nid alg pool segs outcome)))
                = map fst (nodes cm))
       \<and> send_node_command Raised = False
       \<and> send_node_command (Responded 200 (Some False)) = False
       \<and> send_node_command (Responded 200 None) = False
       \<and> send_node_command (Responded 500 (Some True)) = False
       \<and> send_node_command (Responded 200 (Some True)) = True"
proof -
  have "nid \<in> set (map fst (nodes cm))"
    using assms by (metis map_of_eq_None_iff option.distinct(1) set_map)
  then show ?thesis
    using assms
    by (simp add: assign_work_def update_conv' update_keys send_node_command_cases)
qed

text \<open>The registry with node \<open>n1\<close>, a command that raises and one that succeeds.\<close>

theorem assign_work_outcome_witness:
  "map_of (nodes example_manager) ''n1'' = Some (new_node ''n1'' example_info 0)
   \<and> \<not> send_node_command Raised
   \<and> assign_work example_manager ''n1'' ''SHA256'' ''pool-a'' [''n1_0''] Raised
       = (example_manager, False)
   \<and> send_node_command (Responded 200 (Some True))
   \<and> snd (assign_work example_manager ''n1'' ''SHA256'' ''pool-a'' [''n1_0'']
             (Responded 200 (Some True))) = True
   \<and> map_of (nodes (fst (assign_work example_manager ''n1'' ''SHA256'' ''pool-a'' [''n1_0'']
                            (Responded 200 (Some True))))) ''n1''
       = Some ((new_node ''n1'' example_info 0)
                 \<lparr>assigned_algorithm := ''SHA256'', assigned_pool := ''pool-a'',
                  work_segments := [''n1_0''], status := ''mining''\<rparr>)"
proof -
  have h: "map_of (nodes example_manager) ''n1'' = Some (new_node ''n1'' example_info 0)"
    by (simp add: example_manager_def register_node_def initial_manager_def Let_def
          update_cluster_stats_def example_info_def)
  show ?thesis
    using h assign_work_outcome[OF h, of Raised "''SHA256''" "''pool-a''" "[''n1_0'']"]
      assign_work_outcome[OF h, of "Responded 200 (Some True)" "''SHA256''" "''pool-a''" "[''n1_0'']"]
    by (simp add: send_node_command_cases)
qed

text \<open>
  Registration, removal and status update end with \<open>_update_cluster_stats\<close>, so the stored
  statistics are the recomputed ones after each of them.
\<close>

lemma update_cluster_stats_consistent: "stats_consistent (update_cluster_stats cm)"
  by (simp add: stats_consistent_def update_cluster_stats_def)

lemma initial_manager_consistent: "stats_consistent initial_manager"
  by (simp add: stats_consistent_def initial_manager_def compute_cluster_stats_def
        mining_nodes_def py_sum_def calculate_cluster_efficiency_def)

lemma register_node_consistent: "stats_consistent (fst (register_node cm info fresh now))"
  by (simp add: register_node_def Let_def update_cluster_stats_consistent)

lemma unregister_node_consistent:
  "stats_consistent cm \<Longrightarrow> stats_consistent (unregister_node cm nid)"
  by (simp add: unregister_node_def update_cluster_stats_consistent split: option.splits)

lemma update_node_status_consistent:
  "stats_consistent cm \<Longrightarrow> stats_consistent (update_node_status cm nid sd now)"
  by (simp add: update_node_status_def update_cluster_stats_consistent split: option.splits)

lemma assign_work_failure_consistent:
  "stats_consistent cm \<Longrightarrow> \<not> snd (assign_work cm nid alg pool segs outcome) \<Longrightarrow>
     stats_consistent (fst (assign_work cm nid alg pool segs outcome))"
  by (simp add: assign_work_def split: option.splits if_splits)

text \<open>
  Claim C4 asks the same of \<open>assign_work\<close>, which changes a node's status, algorithm and pool
  and does not call \<open>_update_cluster_stats\<close>. After a successful assignment to the only
  node the stored statistics still list no running algorithm, the recomputed ones list
  SHA256.
\<close>

theorem assign_work_leaves_stats_stale:
  "stats_consistent example_manager
   \<and> snd (assign_work example_manager ''n1'' ''SHA256'' ''pool-a'' [''n1_0'']
            (Responded 200 (Some True))) = True
   \<and> algorithms_running (cluster_stats (fst (assign_work example_manager ''n1'' ''SHA256''
        ''pool-a'' [''n1_0''] (Responded 200 (Some True))))) = {}
   \<and> algorithms_running (compute_cluster_stats (nodes (fst (assign_work example_manager ''n1''
        ''SHA256'' ''pool-a'' [''n1_0''] (Responded 200 (Some True)))))) = {''SHA256''}
   \<and> \<not> stats_consistent (fst (assign_work example_manager ''n1'' ''SHA256'' ''pool-a''
        [''n1_0''] (Responded 200 (Some True))))"
proof -
  let ?r = "fst (assign_work example_manager ''n1'' ''SHA256'' ''pool-a'' [''n1_0'']
                  (Responded 200 (Some True)))"
  have c: "stats_consistent example_manager"
    unfolding example_manager_def by (rule register_node_consistent)
  have nodes1: "nodes example_manager = [(''n1'', new_node ''n1'' example_info 0)]"
    by (simp add: example_manager_def register_node_def initial_manager_def Let_def
          update_cluster_stats_def example_info_def)
  have stats1: "algorithms_running (cluster_stats example_manager) = {}"
    using c by (simp add: stats_consistent_def nodes1 compute_cluster_stats_def mining_nodes_def
        new_node_def)
  have ok: "snd (assign_work example_manager ''n1'' ''SHA256'' ''pool-a'' [''n1_0'']
            (Responded 200 (Some True))) = True"
    by (simp add: assign_work_def nodes1 send_node_command_cases)
  have s: "algorithms_running (cluster_stats ?r) = {}"
    using stats1 by (simp add: assign_work_def nodes1 send_node_command_cases)
  have n: "algorithms_running (compute_cluster_stats (nodes ?r)) = {''SHA256''}"
    by (simp add: assign_work_def nodes1 send_node_command_cases compute_cluster_stats_def
          mining_nodes_def)
  have "\<not> stats_consistent ?r"
  proof
    assume "stats_consistent ?r"
    then have "algorithms_running (cluster_stats ?r)
                 = algorithms_running (compute_cluster_stats (nodes ?r))"
      by (simp only: stats_consistent_def)
    then show False by (simp only: s n) simp
  qed
  then show ?thesis using c ok s n by blast
qed

text \<open>
  Node \<open>n1\<close> reports a hashrate of 5 on SHA256 and registers again: its hashrate is 0 and
  its algorithm empty afterwards.
\<close>

theorem re_register_resets_metrics_counterexample:
  "map_option hashrate
     (map_of (nodes (update_node_status example_manager ''n1'' example_status 1)) ''n1'') = Some 5
   \<and> map_option assigned_algorithm
     (map_of (nodes (update_node_status example_manager ''n1'' example_status 1)) ''n1'')
       = Some ''SHA256''
   \<and> map_option hashrate
     (map_of (nodes (fst (register_node (update_node_status example_manager ''n1'' example_status 1)
                           example_info ''u2'' 2))) ''n1'') = Some 0
   \<and> map_option assigned_algorithm
     (map_of (nodes (fst (register_node (update_node_status example_manager ''n1'' example_status 1)
                           example_info ''u2'' 2))) ''n1'') = Some []"
  by (simp add: example_manager_def register_node_def initial_manager_def Let_def
        update_cluster_stats_def example_info_def update_node_status_def example_status_def
        new_node_def get_or_def)

text \<open>
  Claim C5, as amended. Registering with an id that is already in the registry replaces
  the node by a newly constructed one, in the same place of the registry: the hardware
  fields come from the supplied information (with the defaults for absent keys), the
  runtime metrics and the assignment are reset to the defaults of a new node, the status
  is \<open>active\<close> and \<open>last_seen\<close> is the time of the call. The other nodes are unchanged.
\<close>

theorem re_register_replaces_node:
  assumes "map_of (nodes cm) nid = Some old" and "ni_node_id info = Some nid" and "nid \<noteq> []"
  shows "snd (register_node cm info fresh now) = nid
       \<and> map_of (nodes (fst (register_node cm info fresh now))) nid = Some (new_node nid info now)
       \<and> cpu_cores (new_node nid info now) = get_or (ni_cpu_cores info) 1
       \<and> cpu_threads (new_node nid info now) = get_or (ni_cpu_threads info) 1
       \<and> gpu_count (new_node nid info now) = get_or (ni_gpu_count info) 0
       \<and> gpu_memory (new_node nid info now) = get_or (ni_gpu_memory info) 0
       \<and> total_memory (new_node nid info now) = get_or (ni_total_memory info) 0
       \<and> hashrate (new_node nid info now) = 0
       \<and> temperature (new_node nid info now) = []
       \<and> power_usage (new_node nid info now) = 0
       \<and> uptime (new_node nid info now) = 0
       \<and> assigned_algorithm (new_node nid info now) = []
       \<and> assigned_pool (new_node nid info now) = []
       \<and> work_segments (new_node nid info now) = []
       \<and> status (new_node nid info now) = ''active''
       \<and> last_seen (new_node nid info now) = now
       \<and> (\<forall>k. k \<noteq> nid \<longrightarrow>
             map_of (nodes (fst (register_node cm info fresh now))) k = map_of (nodes cm) k)
       \<and> map fst (nodes (fst (register_node cm info fresh now))) = map fst (nodes cm)"
proof -
  have "nid \<in> set (map fst (nodes cm))"
    using assms(1) by (metis map_of_eq_None_iff option.distinct(1) set_map)
  then show ?thesis
    using assms(2,3)
    by (simp add: register_node_def Let_def update_cluster_stats_def update_conv' update_keys
          new_node_def)
qed

text \<open>Node \<open>n1\<close> after its status report.\<close>

theorem re_register_replaces_node_witness:
  "map_of (nodes (update_node_status example_manager ''n1'' example_status 1)) ''n1''
     = Some ((new_node ''n1'' example_info 0)
               \<lparr>last_seen := 1, hashrate := 5, temperature := [(''cpu'', 60)], power_usage := 100,
                uptime := 10, status := ''mining'', assigned_algorithm := ''SHA256'',
                assigned_pool := ''pool-a''\<rparr>)
   \<and> ni_node_id example_info = Some ''n1'' \<and> ''n1'' \<noteq> []
   \<and> snd (register_node (update_node_status example_manager ''n1'' example_status 1)
             example_info ''u2'' 2) = ''n1''
   \<and> map_of (nodes (fst (register_node (update_node_status example_manager ''n1'' example_status 1)
                           example_info ''u2'' 2))) ''n1''
       = Some (new_node ''n1'' example_info 2)
   \<and> hashrate (new_node ''n1'' example_info 2) = 0"
proof -
  have h: "map_of (nodes (update_node_status example_manager ''n1'' example_status 1)) ''n1''
     = Some ((new_node ''n1'' example_info 0)
               \<lparr>last_seen := 1, hashrate := 5, temperature := [(''cpu'', 60)], power_usage := 100,
                uptime := 10, status := ''mining'', assigned_algorithm := ''SHA256'',
                assigned_pool := ''pool-a''\<rparr>)"
    by (simp add: example_manager_def register_node_def initial_manager_def Let_def
        update_cluster_stats_def example_info_def update_node_status_def example_status_def
        get_or_def)
  have i: "ni_node_id example_info = Some ''n1''" by (simp add: example_info_def)
  show ?thesis
    using h i re_register_replaces_node[OF h i, of "''u2''" 2] by simp
qed

section \<open>Fetching work\<close>

text \<open>The search of \<open>get_work\<close> returns the first pool whose url or name occurs in the
  argument, and \<open>get_work\<close> has one of three outcomes.\<close>

lemma take_eq_iff_prefix: "take (length a) b = a \<longleftrightarrow> (\<exists>suf. b = a @ suf)"
proof
  assume "take (length a) b = a"
  then have "b = a @ drop (length a) b" by (metis append_take_drop_id)
  then show "\<exists>suf. b = a @ suf" ..
next
  assume "\<exists>suf. b = a @ suf"
  then show "take (length a) b = a" by auto
qed

lemma is_substring_iff: "is_substring a b \<longleftrightarrow> (\<exists>pre suf. b = pre @ a @ suf)"
proof (induction b)
  case Nil
  show ?case by auto
next
  case (Cons c cs)
  show ?case
  proof
    assume "is_substring a (c # cs)"
    then consider "take (length a) (c # cs) = a" | "is_substring a cs" by auto
    then show "\<exists>pre suf. c # cs = pre @ a @ suf"
    proof cases
      case 1
      then obtain suf where "c # cs = a @ suf" using take_eq_iff_prefix by blast
      then have "c # cs = [] @ a @ suf" by simp
      then show ?thesis by blast
    next
      case 2
      then obtain pre suf where "cs = pre @ a @ suf" using Cons.IH by blast
      then have "c # cs = (c # pre) @ a @ suf" by simp
      then show ?thesis by blast
    qed
  next
    assume "\<exists>pre suf. c # cs = pre @ a @ suf"
    then obtain pre suf where e: "c # cs = pre @ a @ suf" by blast
    show "is_substring a (c # cs)"
    proof (cases pre)
      case Nil
      then have "c # cs = a @ suf" using e by simp
      then have "take (length a) (c # cs) = a" using take_eq_iff_prefix by blast
      then show ?thesis by simp
    next
      case (Cons p ps)
      then have "cs = ps @ a @ suf" using e by simp
      then have "is_substring a cs" using Cons.IH by blast
      then show ?thesis by simp
    qed
  qed
qed

lemma find_pool_find:
  "find_pool pools pool_url =
     find (\<lambda>p. is_substring (pc_url p) pool_url \<or> is_substring (pc_name p) pool_url) pools"
  by (induction pools) simp_all

lemma get_work_cases:
  "get_work int16 pools pool_url =
     (pools,
      case find (\<lambda>p. is_substring (pc_url p) pool_url \<or> is_substring (pc_name p) pool_url) pools of
        None \<Rightarrow> Inr None
      | Some p \<Rightarrow>
          if pc_connected p
          then (case pc_last_work p of
                  None \<Rightarrow> Inr None
                | Some u \<Rightarrow>
                    (case int16 (wu_target u) of
                       Inl e \<Rightarrow> Inl e
                     | Inr t \<Rightarrow> Inr (Some (work_of_unit u t))))
          else Inr None)"
  by (simp add: get_work_def find_pool_find[symmetric] split: option.splits sum.splits)

text \<open>A string of lower-case hexadecimal digits is read by \<open>int(s, 16)\<close> as the integer it
  encodes, so the targets rendered for positive difficulties are read.\<close>

lemma index_of_in_set: "index_of c xs = Some d \<Longrightarrow> c \<in> set xs"
  by (induction xs arbitrary: d) (auto split: if_splits)

lemma lower_hex_chars:
  "list_all (\<lambda>c. is_space c = False \<and> c \<noteq> CHR ''+'' \<and> c \<noteq> CHR ''-'' \<and> c \<noteq> CHR ''_''
                 \<and> c \<noteq> CHR ''x'' \<and> c \<noteq> CHR ''X'' \<and> is_body_char c
                 \<and> digit_value16 c = hex_digit_value c \<and> hex_digit_value c \<noteq> None)
     ''0123456789abcdef''"
  by code_simp

lemma lower_hex_char:
  assumes "c \<in> set ''0123456789abcdef''"
  shows "\<not> is_space c" "c \<noteq> CHR ''+''" "c \<noteq> CHR ''-''" "c \<noteq> CHR ''_''" "c \<noteq> CHR ''x''"
    "c \<noteq> CHR ''X''" "is_body_char c" "digit_value16 c = hex_digit_value c"
    "hex_digit_value c \<noteq> None"
  using lower_hex_chars assms unfolding list_all_iff by blast+

lemma foldl_hex_step_None: "foldl hex_step None s = None"
  by (induction s) (simp_all add: hex_step_def)

lemma hex_value_chars:
  "foldl hex_step (Some a) s = Some n \<Longrightarrow> set s \<subseteq> set ''0123456789abcdef''"
proof (induction s arbitrary: a)
  case Nil
  show ?case by simp
next
  case (Cons c cs)
  show ?case
  proof (cases "hex_digit_value c")
    case None
    then have "hex_step (Some a) c = None" by (simp add: hex_step_def)
    then have "foldl hex_step (Some a) (c # cs) = None"
      by (simp add: foldl_hex_step_None)
    then show ?thesis using Cons.prems by simp
  next
    case (Some d)
    then have c: "c \<in> set ''0123456789abcdef''"
      unfolding hex_digit_value_def by (rule index_of_in_set)
    have "hex_step (Some a) c = Some (16 * a + d)" using Some by (simp add: hex_step_def)
    then have "foldl hex_step (Some (16 * a + d)) cs = Some n"
      using Cons.prems by simp
    then have "set cs \<subseteq> set ''0123456789abcdef''" by (rule Cons.IH)
    then show ?thesis using c by simp
  qed
qed

lemma lower_hex_value:
  assumes "set s \<subseteq> set ''0123456789abcdef''"
  shows "foldl hex_step (Some a) s
           = Some (foldl (\<lambda>a c. 16 * a + (case digit_value16 c of None \<Rightarrow> 0 | Some d \<Rightarrow> d)) a s)"
  using assms
proof (induction s arbitrary: a)
  case Nil
  show ?case by simp
next
  case (Cons c cs)
  then have c: "c \<in> set ''0123456789abcdef''" and cs: "set cs \<subseteq> set ''0123456789abcdef''"
    by simp_all
  obtain d where d: "hex_digit_value c = Some d" using lower_hex_char(9)[OF c] by blast
  then have d16: "digit_value16 c = Some d" using lower_hex_char(8)[OF c] by simp
  have "hex_step (Some a) c = Some (16 * a + d)" using d by (simp add: hex_step_def)
  then show ?case using Cons.IH[OF cs] by (simp add: d16)
qed

lemma lower_hex_body:
  assumes "set s \<subseteq> set ''0123456789abcdef''"
  shows "takeWhile is_body_char s = s" "dropWhile is_body_char s = []"
    "filter (\<lambda>c. c \<noteq> CHR ''_'') s = s"
  using assms lower_hex_char(4,7) by (auto simp: filter_id_conv)

lemma lower_hex_underscores:
  "set s \<subseteq> set ''0123456789abcdef'' \<Longrightarrow> s \<noteq> [] \<Longrightarrow> underscores_single s"
proof (induction s rule: underscores_single.induct)
  case 1
  then show ?case by simp
next
  case (2 c)
  then show ?case using lower_hex_char(4)[of c] by simp
next
  case (3 a b cs)
  then have "a \<noteq> CHR ''_''" using lower_hex_char(4)[of a] by simp
  then show ?case using 3 by simp
qed

lemma py_int16_lower_hex:
  assumes "hex_value s = Some n"
  shows "py_int16 s = Inr n"
proof -
  from assms have ne: "s \<noteq> []" and v: "foldl hex_step (Some 0) s = Some n"
    by (simp_all add: hex_value_def split: if_splits)
  have chars: "set s \<subseteq> set ''0123456789abcdef''" by (rule hex_value_chars[OF v])
  obtain c cs where s: "s = c # cs" using ne by (cases s) simp_all
  have c: "c \<in> set ''0123456789abcdef''" using chars s by simp
  have sp: "dropWhile is_space s = s" using lower_hex_char(1)[OF c] by (simp add: s)
  have sg: "strip_sign s = s" "is_negative s = False"
    using lower_hex_char(2,3)[OF c] by (simp_all add: s strip_sign_def is_negative_def)
  have px: "strip_prefix16 s = s"
  proof (cases cs)
    case Nil
    then show ?thesis by (simp add: s strip_prefix16_def)
  next
    case (Cons b bs)
    then have "b \<in> set ''0123456789abcdef''" using chars s by simp
    then have "b \<noteq> CHR ''x''" "b \<noteq> CHR ''X''" using lower_hex_char(5,6) by blast+
    then show ?thesis by (simp add: s Cons strip_prefix16_def)
  qed
  have ok: "body_ok s"
    using lower_hex_underscores[OF chars ne] lower_hex_char(4)[OF c] by (simp add: body_ok_def s)
  have val: "digits_value16 s = n"
    using lower_hex_value[OF chars, of 0] v by (simp add: digits_value16_def)
  show ?thesis
    by (simp add: py_int16_def Let_def sp sg px lower_hex_body[OF chars] ok val)
qed

lemma rendered_target_parses:
  assumes "0 < d" and "fdiv (float_of_int diff1_target) d < 2 ^ 1024"
  shows "\<exists>s. difficulty_to_target d = Inr s
           \<and> py_int16 s = Inr (py_int (fdiv (float_of_int diff1_target) d))"
  using target_general[OF assms] py_int16_lower_hex by blast

text \<open>The target rendered for the difficulty -1 keeps the \<open>x\<close> of \<open>-0x\<close>; \<open>int(s, 16)\<close>
  refuses it.\<close>

lemma target_of_minus_1:
  "difficulty_to_target (- 1)
     = Inr ''0000000xffff0000000000000000000000000000000000000000000000000000''"
  by code_simp

lemma bad_target_raises:
  "py_int16 ''0000000xffff0000000000000000000000000000000000000000000000000000'' = Inl ValueError"
  by code_simp

lemma failing_pool_found:
  "find_pool failing_pools ''stratum+tcp://beta.example.org:3333'' = Some (failing_pools ! 1)"
  by code_simp

text \<open>
  Claim C8 says that \<open>get_work\<close> returns none or the stored work. For the second of the
  three pools, connected and holding the work notified at difficulty -1, \<open>get_work\<close>
  returns neither: the conversion of the stored target raises \<open>ValueError\<close>.
\<close>

theorem get_work_raises_value_error:
  "difficulty_to_target (- 1)
     = Inr ''0000000xffff0000000000000000000000000000000000000000000000000000''
   \<and> py_int16 ''0000000xffff0000000000000000000000000000000000000000000000000000''
       = Inl ValueError
   \<and> find_pool failing_pools ''stratum+tcp://beta.example.org:3333'' = Some (failing_pools ! 1)
   \<and> pc_connected (failing_pools ! 1)
   \<and> map_option wu_target (pc_last_work (failing_pools ! 1))
       = Some ''0000000xffff0000000000000000000000000000000000000000000000000000''
   \<and> get_work py_int16 failing_pools ''stratum+tcp://beta.example.org:3333''
       = (failing_pools, Inl ValueError)"
proof -
  have c: "pc_connected (failing_pools ! 1)" by (simp add: failing_pools_def)
  have w: "map_option wu_target (pc_last_work (failing_pools ! 1))
       = Some ''0000000xffff0000000000000000000000000000000000000000000000000000''"
    by (simp add: failing_pools_def)
  have "get_work py_int16 failing_pools ''stratum+tcp://beta.example.org:3333''
       = (failing_pools, Inl ValueError)"
    using c w bad_target_raises
    by (auto simp: get_work_def failing_pool_found split: option.splits)
  then show ?thesis
    using target_of_minus_1 bad_target_raises failing_pool_found c w by blast
qed

end
